theory Spec2Isabelle
  imports Main
begin

section \<open>Values shared by the drivers and the pipeline\<close>

text \<open>
  A thrown JavaScript error is represented by its message. A bind value or a column value
  is one of the scalar JavaScript values the drivers inspect; a row is an object, kept as the
  list of its own properties in insertion order.
\<close>

type_synonym error = string

datatype jsval = Undefined | Null | Num int | Str string

type_synonym row = "(string \<times> jsval) list"

text \<open>Decimal rendering of a count, as a template literal does for a number.\<close>

fun show_nat :: "nat \<Rightarrow> string" where
  "show_nat n =
     (if n < 10 then [char_of (48 + n)]
      else show_nat (n div 10) @ [char_of (48 + n mod 10)])"

declare show_nat.simps [simp del]

section \<open>The pipeline orchestrator (packages/core/src/pipeline.ts)\<close>

datatype LogLevel = LError | LInfo | LDebug

record 'r PipelineCursor =
  position :: nat
  lastItem :: "'r option"
  timestamp :: string

text \<open>
  The private fields of \<open>IPipeline\<close>. The calls made to the injected logger are kept in
  \<open>logged\<close> (level and message; the data payload is not recorded).
\<close>

record 'r IPipeline =
  connected :: bool
  batchCount :: nat
  totalRows :: nat
  currentCursor :: "'r PipelineCursor option"
  logged :: "(LogLevel \<times> string) list"

text \<open>
  What \<open>source.fetch()\<close> hands to \<open>for await\<close>: an async generator that yields batches and
  then either returns or throws. The pipeline sends nothing into the generator, so a run of
  it is the sequence of its yields with the way it ends.
\<close>

datatype 'r fetch_seq =
    SeqDone
  | SeqThrow error
  | SeqYield "'r list" "'r fetch_seq"

text \<open>
  The constructor arguments. The outside world (both backends and the clock) has state
  \<open>'w\<close>; each driver method returns \<open>Some e\<close> when its promise rejects with \<open>e\<close>.
  The transformer is optional and may throw. The logger is optional; it returns
  \<open>void\<close> and is taken not to throw.
\<close>

record ('r, 'w) deps =
  src_connect :: "'w \<Rightarrow> error option \<times> 'w"
  src_fetch :: "'r fetch_seq"
  src_close :: "'w \<Rightarrow> error option \<times> 'w"
  dst_connect :: "'w \<Rightarrow> error option \<times> 'w"
  dst_insert :: "'r list \<Rightarrow> 'w \<Rightarrow> error option \<times> 'w"
  dst_close :: "'w \<Rightarrow> error option \<times> 'w"
  transformer :: "('r list \<Rightarrow> error + 'r list) option"
  has_logger :: bool
  now :: "'w \<Rightarrow> string"

definition new_IPipeline :: "'r IPipeline" where
  "new_IPipeline =
     \<lparr>connected = False, batchCount = 0, totalRows = 0, currentCursor = None, logged = []\<rparr>"

definition log :: "('r, 'w) deps \<Rightarrow> LogLevel \<Rightarrow> string \<Rightarrow> 'r IPipeline \<Rightarrow> 'r IPipeline" where
  "log env level message p =
     (if has_logger env then p\<lparr>logged := logged p @ [(level, message)]\<rparr> else p)"

text \<open>\<open>batch[batch.length - 1]\<close>: \<open>undefined\<close> (here \<open>None\<close>) for an empty batch.\<close>

definition last_of :: "'r list \<Rightarrow> 'r option" where
  "last_of batch = (if batch = [] then None else Some (last batch))"

text \<open>The body of the \<open>for await\<close> loop of \<open>process()\<close>: the inner \<open>try\<close> and its \<open>catch\<close>.\<close>

definition process_batch ::
  "('r, 'w) deps \<Rightarrow> 'r list \<Rightarrow> 'r IPipeline \<times> 'w \<Rightarrow> error option \<times> 'r IPipeline \<times> 'w" where
  "process_batch env batch s =
     (case s of (p, w) \<Rightarrow>
       (case (case transformer env of None \<Rightarrow> Inr batch | Some f \<Rightarrow> f batch) of
          Inl e \<Rightarrow>
            (Some e, log env LError (''Failed to process batch '' @ show_nat (batchCount p)) p, w)
        | Inr transformedBatch \<Rightarrow>
            (case dst_insert env transformedBatch w of
               (Some e, w') \<Rightarrow>
                 (Some e,
                  log env LError (''Failed to process batch '' @ show_nat (batchCount p)) p, w')
             | (None, w') \<Rightarrow>
                 (let p1 = p\<lparr>batchCount := batchCount p + 1\<rparr>;
                      p2 = p1\<lparr>totalRows := totalRows p1 + length batch\<rparr>;
                      p3 = p2\<lparr>currentCursor := Some
                             \<lparr>position = totalRows p2, lastItem = last_of batch,
                              timestamp = now env w'\<rparr>\<rparr>
                  in (None,
                      log env LDebug (''Processed batch '' @ show_nat (batchCount p3)) p3,
                      w')))))"

text \<open>The \<open>for await\<close> loop: a throw of the generator or of the body leaves the loop.\<close>

fun process_loop ::
  "('r, 'w) deps \<Rightarrow> 'r fetch_seq \<Rightarrow> 'r IPipeline \<times> 'w \<Rightarrow> error option \<times> 'r IPipeline \<times> 'w" where
  "process_loop env SeqDone s = (None, s)"
| "process_loop env (SeqThrow e) s = (Some e, s)"
| "process_loop env (SeqYield batch rest) s =
     (case process_batch env batch s of
        (Some e, s') \<Rightarrow> (Some e, s')
      | (None, s') \<Rightarrow> process_loop env rest s')"

definition process ::
  "('r, 'w) deps \<Rightarrow> 'r IPipeline \<times> 'w \<Rightarrow> error option \<times> 'r IPipeline \<times> 'w" where
  "process env s =
     (case s of (p, w) \<Rightarrow>
       (case process_loop env (src_fetch env) (log env LInfo ''Starting data processing'' p, w) of
          (None, p', w') \<Rightarrow> (None, log env LInfo ''Data processing completed'' p', w')
        | (Some e, p', w') \<Rightarrow> (Some e, log env LError ''Data processing failed'' p', w')))"

text \<open>
  \<open>cleanup()\<close>: each \<open>close()\<close> sits in its own \<open>try\<close>/\<open>catch\<close> that logs and swallows. The outer
  \<open>catch\<close> could only be entered by a throwing logger, so the result is always a normal
  return.
\<close>

definition cleanup ::
  "('r, 'w) deps \<Rightarrow> 'r IPipeline \<times> 'w \<Rightarrow> error option \<times> 'r IPipeline \<times> 'w" where
  "cleanup env s =
     (case s of (p, w) \<Rightarrow>
       (let p0 = log env LInfo ''Cleaning up resources...'' p;
            (r1, w1) = src_close env w;
            p1 = (case r1 of
                    Some e \<Rightarrow> log env LError ''Failed to close source connection'' p0
                  | None \<Rightarrow> p0);
            (r2, w2) = dst_close env w1;
            p2 = (case r2 of
                    Some e \<Rightarrow> log env LError ''Failed to close destination connection'' p1
                  | None \<Rightarrow> p1);
            p3 = p2\<lparr>connected := False\<rparr>
        in (None, log env LInfo ''Cleanup completed'' p3, w2)))"

definition connect_failed ::
  "('r, 'w) deps \<Rightarrow> error \<Rightarrow> 'r IPipeline \<times> 'w \<Rightarrow> error option \<times> 'r IPipeline \<times> 'w" where
  "connect_failed env e s =
     (case s of (p, w) \<Rightarrow>
       (case cleanup env (log env LError ''Failed to establish connections'' p, w) of
          (Some ce, s') \<Rightarrow> (Some ce, s')
        | (None, s') \<Rightarrow> (Some e, s')))"

definition connect ::
  "('r, 'w) deps \<Rightarrow> 'r IPipeline \<times> 'w \<Rightarrow> error option \<times> 'r IPipeline \<times> 'w" where
  "connect env s =
     (case s of (p, w) \<Rightarrow>
       if connected p then (None, p, w)
       else
         (let p0 = log env LInfo ''Establishing connections...'' p in
          case src_connect env w of
            (Some e, w1) \<Rightarrow> connect_failed env e (p0, w1)
          | (None, w1) \<Rightarrow>
              (case dst_connect env w1 of
                 (Some e, w2) \<Rightarrow> connect_failed env e (p0, w2)
               | (None, w2) \<Rightarrow>
                   (None,
                    log env LInfo ''Connections established successfully''
                      (p0\<lparr>connected := True\<rparr>),
                    w2))))"

text \<open>\<open>run()\<close>: \<open>connect()\<close>, then \<open>process()\<close> with \<open>cleanup()\<close> in the \<open>finally\<close> block.\<close>

definition run ::
  "('r, 'w) deps \<Rightarrow> 'r IPipeline \<times> 'w \<Rightarrow> error option \<times> 'r IPipeline \<times> 'w" where
  "run env s =
     (case connect env s of
        (Some e, s1) \<Rightarrow> (Some e, s1)
      | (None, s1) \<Rightarrow>
          (case process env s1 of
             (r, s2) \<Rightarrow>
               (case cleanup env s2 of
                  (Some ce, s3) \<Rightarrow> (Some ce, s3)
                | (None, s3) \<Rightarrow> (r, s3))))"

record 'r Metrics =
  m_batchCount :: nat
  m_totalRows :: nat
  m_cursor :: "'r PipelineCursor option"

definition getMetrics :: "'r IPipeline \<Rightarrow> 'r Metrics" where
  "getMetrics p =
     \<lparr>m_batchCount = batchCount p, m_totalRows = totalRows p, m_cursor = currentCursor p\<rparr>"

text \<open>The batches a generator run yields, in order.\<close>

fun yielded :: "'r fetch_seq \<Rightarrow> 'r list list" where
  "yielded SeqDone = []"
| "yielded (SeqThrow e) = []"
| "yielded (SeqYield batch rest) = batch # yielded rest"

section \<open>The source paginator (MySQLSourceDriver.fetch)\<close>

text \<open>
  The three SQL source drivers (MySQL, Postgres, Oracle) share one \<open>fetch()\<close> body; they
  differ in how a connection is obtained and in the name of the call that runs the query.
  The model takes both from the client library, so it is the MySQL driver as written and
  the other two with their own library in its place.

  Arrays are objects with identity: \<open>config.params\<close> is a reference into a store of arrays,
  \<open>[...config.params]\<close> allocates a new array, and \<open>params[i] = v\<close> writes through the
  reference held by the local variable. A reference is the index of its array in the store.
\<close>

type_synonym ref = nat

type_synonym store = "jsval list list"

definition deref :: "store \<Rightarrow> ref \<Rightarrow> jsval list" where
  "deref st a = (if a < length st then st ! a else [])"

text \<open>\<open>xs[i] = v\<close> on a JavaScript array: a write past the end extends it with holes.\<close>

definition array_set :: "jsval list \<Rightarrow> nat \<Rightarrow> jsval \<Rightarrow> jsval list" where
  "array_set xs i v =
     (if i < length xs then xs[i := v]
      else xs @ replicate (i - length xs) Undefined @ [v])"

text \<open>
  \<open>params\<close> is \<open>None\<close> when \<open>config.params\<close> is not an array; \<open>cursorParamsIndex\<close> is \<open>None\<close>
  when it is not a number.
\<close>

record MySQLConfig =
  query :: string
  params :: "ref option"
  cursorField :: "string option"
  cursorParamsIndex :: "nat option"

text \<open>What running the query gives: a rejection, or the rows (\<open>None\<close> for a falsy value).\<close>

datatype exec_result = Rejected error | Rows "row list option"

record 'c client_library =
  createConnection :: "error + 'c"
  execute :: "'c \<Rightarrow> string \<Rightarrow> jsval list \<Rightarrow> exec_result \<times> 'c"

text \<open>
  The generator object: where it is suspended, and the locals that live across a \<open>yield\<close>.
  \<open>hasMore\<close> is true whenever the generator is suspended at the \<open>yield\<close>, so it is not kept.
\<close>

datatype gen_point = AtStart | AtYield "row list" | Finished

datatype gen_result = Yield "row list" | Return | Throw error

record 'c fetch_frame =
  heap :: store
  connection :: "'c option"
  point :: gen_point
  cursorValue :: jsval
  params_local :: ref

text \<open>\<open>this.config.cursorField\<close> used as a condition: absent and empty strings are falsy.\<close>

definition truthy :: "string option \<Rightarrow> bool" where
  "truthy f = (case f of None \<Rightarrow> False | Some s \<Rightarrow> s \<noteq> [])"

text \<open>The first statement of the loop body: the cursor overwrites one bind value.\<close>

definition overwrite_cursor :: "MySQLConfig \<Rightarrow> 'c fetch_frame \<Rightarrow> store" where
  "overwrite_cursor cfg fr =
     (case cursorParamsIndex cfg of
        Some i \<Rightarrow>
          if truthy (cursorField cfg) \<and> cursorValue fr \<noteq> Undefined
          then (heap fr)[params_local fr :=
                  array_set (deref (heap fr) (params_local fr)) i (cursorValue fr)]
          else heap fr
      | None \<Rightarrow> heap fr)"

text \<open>
  One pass of \<open>while (hasMore)\<close> from the top of the body to the next \<open>yield\<close>, \<open>break\<close> or
  throw. A connection that has been set to \<open>null\<close> in the meantime makes the call throw.
\<close>

definition loop_body ::
  "MySQLConfig \<Rightarrow> 'c client_library \<Rightarrow> 'c fetch_frame \<Rightarrow> gen_result \<times> 'c fetch_frame" where
  "loop_body cfg lib fr =
     (let st = overwrite_cursor cfg fr in
      case connection fr of
        None \<Rightarrow> (Throw ''TypeError'', fr\<lparr>heap := st, point := Finished\<rparr>)
      | Some c \<Rightarrow>
          (case execute lib c (query cfg) (deref st (params_local fr)) of
             (Rejected e, c') \<Rightarrow>
               (Throw e, fr\<lparr>heap := st, connection := Some c', point := Finished\<rparr>)
           | (Rows None, c') \<Rightarrow>
               (Return, fr\<lparr>heap := st, connection := Some c', point := Finished\<rparr>)
           | (Rows (Some rows), c') \<Rightarrow>
               if rows = []
               then (Return, fr\<lparr>heap := st, connection := Some c', point := Finished\<rparr>)
               else (Yield rows,
                     fr\<lparr>heap := st, connection := Some c', point := AtYield rows\<rparr>)))"

text \<open>The code after \<open>yield rows\<close>: the new cursor value, or \<open>None\<close> when \<open>hasMore\<close> becomes false.\<close>

definition next_cursor :: "MySQLConfig \<Rightarrow> row list \<Rightarrow> jsval option" where
  "next_cursor cfg rows =
     (case cursorField cfg of
        None \<Rightarrow> None
      | Some f \<Rightarrow>
          if f = [] then None
          else (case map_of (last rows) f of
                  None \<Rightarrow> None
                | Some v \<Rightarrow> if v = Undefined then None else Some v))"

text \<open>One call of the generator's \<open>next()\<close>.\<close>

definition fetch_next ::
  "MySQLConfig \<Rightarrow> 'c client_library \<Rightarrow> 'c fetch_frame \<Rightarrow> gen_result \<times> 'c fetch_frame" where
  "fetch_next cfg lib fr =
     (case point fr of
        Finished \<Rightarrow> (Return, fr)
      | AtStart \<Rightarrow>
          (case (case connection fr of Some c \<Rightarrow> Inr c | None \<Rightarrow> createConnection lib) of
             Inl e \<Rightarrow> (Throw e, fr\<lparr>point := Finished\<rparr>)
           | Inr c \<Rightarrow>
               loop_body cfg lib
                 (fr\<lparr>heap := heap fr @
                               [case params cfg of Some a \<Rightarrow> deref (heap fr) a | None \<Rightarrow> []],
                     connection := Some c,
                     cursorValue := Undefined,
                     params_local := length (heap fr)\<rparr>))
      | AtYield rows \<Rightarrow>
          (case next_cursor cfg rows of
             None \<Rightarrow> (Return, fr\<lparr>point := Finished\<rparr>)
           | Some v \<Rightarrow> loop_body cfg lib (fr\<lparr>cursorValue := v\<rparr>)))"

definition new_fetch :: "store \<Rightarrow> 'c option \<Rightarrow> 'c fetch_frame" where
  "new_fetch st conn =
     \<lparr>heap = st, connection = conn, point = AtStart, cursorValue = Undefined,
      params_local = 0\<rparr>"

text \<open>A consumer that calls \<open>next()\<close> \<open>n\<close> times, with what each call gave.\<close>

fun pull ::
  "nat \<Rightarrow> MySQLConfig \<Rightarrow> 'c client_library \<Rightarrow> 'c fetch_frame \<Rightarrow>
   gen_result list \<times> 'c fetch_frame" where
  "pull 0 cfg lib fr = ([], fr)"
| "pull (Suc n) cfg lib fr =
     (case fetch_next cfg lib fr of
        (r, fr') \<Rightarrow> (case pull n cfg lib fr' of (rs, fr'') \<Rightarrow> (r # rs, fr'')))"

text \<open>
  A stand-in for the database, as the drivers' tests use: it answers the calls from a
  prepared list of results and records the query text and bind values of every call.
\<close>

record scripted =
  script :: "exec_result list"
  calls :: "(string \<times> jsval list) list"

definition scripted_execute :: "scripted \<Rightarrow> string \<Rightarrow> jsval list \<Rightarrow> exec_result \<times> scripted" where
  "scripted_execute c q ps =
     (case script c of
        [] \<Rightarrow> (Rejected ''no more results'', c\<lparr>calls := calls c @ [(q, ps)]\<rparr>)
      | r # rs \<Rightarrow> (r, \<lparr>script = rs, calls = calls c @ [(q, ps)]\<rparr>))"

definition scripted_library :: "exec_result list \<Rightarrow> scripted client_library" where
  "scripted_library rs =
     \<lparr>createConnection = Inr \<lparr>script = rs, calls = []\<rparr>, execute = scripted_execute\<rparr>"

text \<open>
  Scenario C: \<open>cursorField: "id"\<close>, \<open>cursorParamsIndex: 0\<close>, \<open>params: [0]\<close> (the array at
  reference 0), and a backend that returns two pages and then an empty result.
\<close>

definition scenario_C_config :: MySQLConfig where
  "scenario_C_config =
     \<lparr>query = ''SELECT * FROM t WHERE id > ? ORDER BY id'', params = Some 0,
      cursorField = Some ''id'', cursorParamsIndex = Some 0\<rparr>"

definition scenario_C_pages :: "exec_result list" where
  "scenario_C_pages =
     [Rows (Some [[(''id'', Num 1)], [(''id'', Num 2)]]),
      Rows (Some [[(''id'', Num 3)]]),
      Rows (Some [])]"

section \<open>The destination drivers\<close>

text \<open>
  The statements the two transactional writers send. The SQL text itself (table name,
  column list, value rendering) is built by string formatting and is not modelled; a
  statement is identified by its kind and by the rows it carries. The pause between two
  attempts (\<open>setTimeout\<close>) changes no state and is left out.
\<close>

datatype 'r statement =
    StartTransaction
  | Begin
  | SetStatementTimeout nat
  | InsertValues "'r list"
  | InsertRow 'r
  | Commit
  | Rollback

text \<open>\<open>x || d\<close> and \<open>x ?? d\<close> on an optional count: zero is falsy, only an absent value is nullish.\<close>

definition js_or :: "nat option \<Rightarrow> nat \<Rightarrow> nat" where
  "js_or x d = (case x of None \<Rightarrow> d | Some n \<Rightarrow> if n = 0 then d else n)"

definition nullish :: "'a option \<Rightarrow> 'a \<Rightarrow> 'a" where
  "nullish x d = (case x of None \<Rightarrow> d | Some v \<Rightarrow> v)"

subsection \<open>DatabricksDestinationDriver (buffered flush)\<close>

record DatabricksConfig =
  batchSize :: "nat option"
  transaction_enabled :: "bool option"
  transaction_maxRetries :: "nat option"

text \<open>The defaults the constructor writes into the configuration.\<close>

definition constructor_defaults :: "DatabricksConfig \<Rightarrow> DatabricksConfig" where
  "constructor_defaults cfg =
     \<lparr>batchSize = Some (js_or (batchSize cfg) 1000),
      transaction_enabled = Some (nullish (transaction_enabled cfg) True),
      transaction_maxRetries = Some (nullish (transaction_maxRetries cfg) 3)\<rparr>"

text \<open>
  The SDK: opening the connection, the statements \<open>connect()\<close> runs on it (\<open>USE\<close> and the
  table check or creation), running a statement, and closing.
\<close>

record ('r, 'c) databricks_sdk =
  client_connect :: "error + 'c"
  prepare :: "'c \<Rightarrow> error option \<times> 'c"
  db_execute :: "'c \<Rightarrow> 'r statement \<Rightarrow> error option \<times> 'c"
  connection_close :: "'c \<Rightarrow> error option"
  client_close :: "error option"

text \<open>
  The driver's fields. \<open>sent\<close> is not a field of the class: it lists the statements passed
  to \<open>connection.execute\<close> by \<open>flushBatch()\<close> and \<open>close()\<close>, in order.
\<close>

record ('r, 'c) DatabricksDestinationDriver =
  client :: bool
  db_connection :: "'c option"
  pendingRows :: "'r list"
  currentTransaction :: bool
  sent :: "'r statement list"

definition new_DatabricksDestinationDriver :: "('r, 'c) DatabricksDestinationDriver" where
  "new_DatabricksDestinationDriver =
     \<lparr>client = False, db_connection = None, pendingRows = [], currentTransaction = False,
      sent = []\<rparr>"

definition db_connect ::
  "('r, 'c) databricks_sdk \<Rightarrow> ('r, 'c) DatabricksDestinationDriver \<Rightarrow>
   error option \<times> ('r, 'c) DatabricksDestinationDriver" where
  "db_connect sdk d =
     (if client d then (None, d)
      else
        (case client_connect sdk of
           Inl e \<Rightarrow> (Some e, d\<lparr>client := True\<rparr>)
         | Inr c \<Rightarrow>
             (case prepare sdk c of
                (r, c') \<Rightarrow> (r, d\<lparr>client := True, db_connection := Some c'\<rparr>))))"

text \<open>\<open>await this.connection.execute(stmt)\<close>; on \<open>null\<close> the member access throws.\<close>

definition run_statement ::
  "('r, 'c) databricks_sdk \<Rightarrow> 'r statement \<Rightarrow> ('r, 'c) DatabricksDestinationDriver \<Rightarrow>
   error option \<times> ('r, 'c) DatabricksDestinationDriver" where
  "run_statement sdk stmt d =
     (case db_connection d of
        None \<Rightarrow> (Some ''TypeError'', d)
      | Some c \<Rightarrow>
          (case db_execute sdk c stmt of
             (r, c') \<Rightarrow> (r, d\<lparr>db_connection := Some c', sent := sent d @ [stmt]\<rparr>)))"

text \<open>The \<open>try\<close> block of one pass of the retry loop in \<open>flushBatch()\<close>.\<close>

definition flush_attempt ::
  "DatabricksConfig \<Rightarrow> ('r, 'c) databricks_sdk \<Rightarrow> 'r list \<Rightarrow>
   ('r, 'c) DatabricksDestinationDriver \<Rightarrow> error option \<times> ('r, 'c) DatabricksDestinationDriver" where
  "flush_attempt cfg sdk rows d =
     (case (if transaction_enabled cfg = Some True \<and> \<not> currentTransaction d
            then (case run_statement sdk StartTransaction d of
                    (Some e, d') \<Rightarrow> (Some e, d')
                  | (None, d') \<Rightarrow> (None, d'\<lparr>currentTransaction := True\<rparr>))
            else (None, d)) of
        (Some e, d1) \<Rightarrow> (Some e, d1)
      | (None, d1) \<Rightarrow>
          (case run_statement sdk (InsertValues rows) d1 of
             (Some e, d2) \<Rightarrow> (Some e, d2)
           | (None, d2) \<Rightarrow>
               if transaction_enabled cfg = Some True
               then (case run_statement sdk Commit d2 of
                       (Some e, d3) \<Rightarrow> (Some e, d3)
                     | (None, d3) \<Rightarrow> (None, d3\<lparr>currentTransaction := False\<rparr>))
               else (None, d2)))"

text \<open>The rollback in the \<open>catch\<close> block; a failing rollback is printed and swallowed.\<close>

definition flush_rollback ::
  "('r, 'c) databricks_sdk \<Rightarrow> ('r, 'c) DatabricksDestinationDriver \<Rightarrow>
   ('r, 'c) DatabricksDestinationDriver" where
  "flush_rollback sdk d =
     (if currentTransaction d
      then (case run_statement sdk Rollback d of (r, d') \<Rightarrow> d'\<lparr>currentTransaction := False\<rparr>)
      else d)"

text \<open>\<open>while (attempt < (maxRetries || 3))\<close> with its \<open>try\<close>/\<open>catch\<close>.\<close>

function flush_retry ::
  "DatabricksConfig \<Rightarrow> ('r, 'c) databricks_sdk \<Rightarrow> 'r list \<Rightarrow> nat \<Rightarrow>
   ('r, 'c) DatabricksDestinationDriver \<Rightarrow> error option \<times> ('r, 'c) DatabricksDestinationDriver" where
  "flush_retry cfg sdk rows attempt d =
     (if attempt < js_or (transaction_maxRetries cfg) 3
      then (case flush_attempt cfg sdk rows d of
              (None, d') \<Rightarrow> (None, d')
            | (Some e, d') \<Rightarrow>
                if js_or (transaction_maxRetries cfg) 3 \<le> attempt + 1
                then (Some e, flush_rollback sdk d')
                else flush_retry cfg sdk rows (attempt + 1) (flush_rollback sdk d'))
      else (None, d))"
  by pat_completeness auto
termination
  by (relation "measure (\<lambda>(cfg, sdk, rows, attempt, d).
        js_or (transaction_maxRetries cfg) 3 - attempt)") auto

declare flush_retry.simps [simp del]

definition flushBatch ::
  "DatabricksConfig \<Rightarrow> ('r, 'c) databricks_sdk \<Rightarrow> ('r, 'c) DatabricksDestinationDriver \<Rightarrow>
   error option \<times> ('r, 'c) DatabricksDestinationDriver" where
  "flushBatch cfg sdk d =
     (if db_connection d = None \<or> pendingRows d = [] then (None, d)
      else flush_retry cfg sdk (pendingRows d) 0 (d\<lparr>pendingRows := []\<rparr>))"

definition db_insert ::
  "DatabricksConfig \<Rightarrow> ('r, 'c) databricks_sdk \<Rightarrow> 'r list \<Rightarrow>
   ('r, 'c) DatabricksDestinationDriver \<Rightarrow> error option \<times> ('r, 'c) DatabricksDestinationDriver" where
  "db_insert cfg sdk rows d =
     (case (if db_connection d = None then db_connect sdk d else (None, d)) of
        (Some e, d1) \<Rightarrow> (Some e, d1)
      | (None, d1) \<Rightarrow>
          (let d2 = d1\<lparr>pendingRows := pendingRows d1 @ rows\<rparr> in
           if js_or (batchSize cfg) 1000 \<le> length (pendingRows d2)
           then flushBatch cfg sdk d2
           else (None, d2)))"

text \<open>\<open>await this.connection?.execute(stmt)\<close>: nothing happens on \<open>null\<close>.\<close>

definition run_statement_opt ::
  "('r, 'c) databricks_sdk \<Rightarrow> 'r statement \<Rightarrow> ('r, 'c) DatabricksDestinationDriver \<Rightarrow>
   error option \<times> ('r, 'c) DatabricksDestinationDriver" where
  "run_statement_opt sdk stmt d =
     (if db_connection d = None then (None, d) else run_statement sdk stmt d)"

text \<open>The \<open>try\<close> block of \<open>close()\<close>.\<close>

definition close_try ::
  "DatabricksConfig \<Rightarrow> ('r, 'c) databricks_sdk \<Rightarrow> ('r, 'c) DatabricksDestinationDriver \<Rightarrow>
   error option \<times> ('r, 'c) DatabricksDestinationDriver" where
  "close_try cfg sdk d =
     (case (if pendingRows d \<noteq> [] then flushBatch cfg sdk d else (None, d)) of
        (Some e, d1) \<Rightarrow> (Some e, d1)
      | (None, d1) \<Rightarrow>
          if currentTransaction d1
          then (case run_statement_opt sdk Commit d1 of
                  (None, d2) \<Rightarrow> (None, d2)
                | (Some e, d2) \<Rightarrow>
                    (case run_statement_opt sdk Rollback d2 of
                       (Some e', d3) \<Rightarrow> (Some e', d3)
                     | (None, d3) \<Rightarrow> (Some e, d3)))
          else (None, d1))"

text \<open>The \<open>finally\<close> block of \<open>close()\<close>.\<close>

definition close_finally ::
  "('r, 'c) databricks_sdk \<Rightarrow> ('r, 'c) DatabricksDestinationDriver \<Rightarrow>
   error option \<times> ('r, 'c) DatabricksDestinationDriver" where
  "close_finally sdk d =
     (case (case db_connection d of
              None \<Rightarrow> (None, d)
            | Some c \<Rightarrow>
                (case connection_close sdk c of
                   Some e \<Rightarrow> (Some e, d)
                 | None \<Rightarrow> (None, d\<lparr>db_connection := None\<rparr>))) of
        (Some e, d1) \<Rightarrow> (Some e, d1)
      | (None, d1) \<Rightarrow>
          if client d1
          then (case client_close sdk of
                  Some e \<Rightarrow> (Some e, d1)
                | None \<Rightarrow> (None, d1\<lparr>client := False\<rparr>))
          else (None, d1))"

definition db_close ::
  "DatabricksConfig \<Rightarrow> ('r, 'c) databricks_sdk \<Rightarrow> ('r, 'c) DatabricksDestinationDriver \<Rightarrow>
   error option \<times> ('r, 'c) DatabricksDestinationDriver" where
  "db_close cfg sdk d =
     (case close_try cfg sdk d of
        (r, d1) \<Rightarrow>
          (case close_finally sdk d1 of
             (Some e, d2) \<Rightarrow> (Some e, d2)
           | (None, d2) \<Rightarrow> (r, d2)))"

subsection \<open>SnowflakeDestinationDriver (immediate flush)\<close>

text \<open>
  \<open>sf_enabled\<close> is \<open>transaction?.enabled\<close> used as a condition (absent counts as false).
\<close>

record SnowflakeConfig =
  batch_size :: "nat option"
  batch_maxRetries :: "nat option"
  sf_enabled :: bool
  queryTimeout :: "nat option"
  maxParallelStatements :: "nat option"

text \<open>
  The driver's only field is the connection. \<open>sf_sent\<close> and \<open>sf_groups\<close> are not fields of
  the class: the first lists the statements passed to \<open>connection.execute\<close>, the second the
  slices (\<open>batch\<close>) whose row statements were issued together, both in order.
\<close>

record ('r, 'c) SnowflakeDestinationDriver =
  sf_connection :: "'c option"
  sf_sent :: "'r statement list"
  sf_groups :: "'r list list"

definition executeQuery ::
  "('c \<Rightarrow> 'r statement \<Rightarrow> error option \<times> 'c) \<Rightarrow> 'r statement \<Rightarrow>
   ('r, 'c) SnowflakeDestinationDriver \<Rightarrow> error option \<times> ('r, 'c) SnowflakeDestinationDriver" where
  "executeQuery exec stmt d =
     (case sf_connection d of
        None \<Rightarrow> (Some ''Not connected to Snowflake. Call connect() first.'', d)
      | Some c \<Rightarrow>
          (case exec c stmt of
             (r, c') \<Rightarrow>
               (map_option (\<lambda>e. ''Query execution failed: '' @ e) r,
                d\<lparr>sf_connection := Some c', sf_sent := sf_sent d @ [stmt]\<rparr>)))"

text \<open>
  \<open>batch.map(row => this.executeQuery(query, values))\<close>: every row statement of the slice is
  issued at once; the list holds the outcome of each promise.
\<close>

fun issue_all ::
  "('c \<Rightarrow> 'r statement \<Rightarrow> error option \<times> 'c) \<Rightarrow> 'r list \<Rightarrow>
   ('r, 'c) SnowflakeDestinationDriver \<Rightarrow>
   error option list \<times> ('r, 'c) SnowflakeDestinationDriver" where
  "issue_all exec [] d = ([], d)"
| "issue_all exec (r # rs) d =
     (case executeQuery exec (InsertRow r) d of
        (out, d1) \<Rightarrow> (case issue_all exec rs d1 of (outs, d2) \<Rightarrow> (out # outs, d2)))"

text \<open>\<open>Promise.all\<close> over a chunk of promises rejects when one of them does.\<close>

definition first_rejection :: "error option list \<Rightarrow> error option" where
  "first_rejection outs = (case filter (\<lambda>out. out \<noteq> None) outs of [] \<Rightarrow> None | out # _ \<Rightarrow> out)"

text \<open>
  \<open>for (let j = 0; j < batchPromises.length; j += maxParallel)\<close>. With \<open>maxParallel = 0\<close> the
  counter never advances and the loop does not return (\<open>None\<close>).
\<close>

partial_function (option) await_all :: "nat \<Rightarrow> error option list \<Rightarrow> nat \<Rightarrow> error option option" where
  "await_all maxParallel outs j =
     (if j < length outs
      then (case first_rejection (take maxParallel (drop j outs)) of
              Some e \<Rightarrow> Some (Some e)
            | None \<Rightarrow> await_all maxParallel outs (j + maxParallel))
      else Some None)"

text \<open>
  \<open>for (let i = 0; i < rows.length; i += batchSize)\<close>, with \<open>rows.slice(i, i + batchSize)\<close>.
  With a batch size of \<open>0\<close> this loop does not return either.
\<close>

partial_function (option) write_batches ::
  "('c \<Rightarrow> 'r statement \<Rightarrow> error option \<times> 'c) \<Rightarrow> nat \<Rightarrow> nat \<Rightarrow> 'r list \<Rightarrow> nat \<Rightarrow>
   ('r, 'c) SnowflakeDestinationDriver \<Rightarrow>
   (error option \<times> ('r, 'c) SnowflakeDestinationDriver) option" where
  "write_batches exec batchSize' maxParallel rows i d =
     (if i < length rows
      then (let batch = take batchSize' (drop i rows) in
            case issue_all exec batch (d\<lparr>sf_groups := sf_groups d @ [batch]\<rparr>) of
              (outs, d1) \<Rightarrow>
                (case await_all maxParallel outs 0 of
                   None \<Rightarrow> None
                 | Some (Some e) \<Rightarrow> Some (Some e, d1)
                 | Some None \<Rightarrow> write_batches exec batchSize' maxParallel rows (i + batchSize') d1))
      else Some (None, d))"

text \<open>The \<open>try\<close> block of \<open>executeInsert\<close>.\<close>

definition insert_try ::
  "SnowflakeConfig \<Rightarrow> ('c \<Rightarrow> 'r statement \<Rightarrow> error option \<times> 'c) \<Rightarrow> 'r list \<Rightarrow>
   ('r, 'c) SnowflakeDestinationDriver \<Rightarrow>
   (error option \<times> ('r, 'c) SnowflakeDestinationDriver) option" where
  "insert_try cfg exec rows d =
     (case (if sf_enabled cfg then executeQuery exec Begin d else (None, d)) of
        (Some e, d1) \<Rightarrow> Some (Some e, d1)
      | (None, d1) \<Rightarrow>
          (case (if js_or (queryTimeout cfg) 0 \<noteq> 0
                 then executeQuery exec (SetStatementTimeout (js_or (queryTimeout cfg) 0)) d1
                 else (None, d1)) of
             (Some e, d2) \<Rightarrow> Some (Some e, d2)
           | (None, d2) \<Rightarrow>
               (case write_batches exec (nullish (batch_size cfg) 1000)
                       (nullish (maxParallelStatements cfg) 1) rows 0 d2 of
                  None \<Rightarrow> None
                | Some (Some e, d3) \<Rightarrow> Some (Some e, d3)
                | Some (None, d3) \<Rightarrow>
                    if sf_enabled cfg then Some (executeQuery exec Commit d3)
                    else Some (None, d3))))"

text \<open>
  \<open>executeInsert\<close> with its \<open>catch\<close> block: the rollback is awaited inside the \<open>catch\<close>, so a
  failing rollback is thrown to the caller at once; otherwise the closure calls itself
  while \<open>retryCount < maxRetries\<close>.
\<close>

function executeInsert ::
  "SnowflakeConfig \<Rightarrow> ('c \<Rightarrow> 'r statement \<Rightarrow> error option \<times> 'c) \<Rightarrow> 'r list \<Rightarrow> nat \<Rightarrow>
   ('r, 'c) SnowflakeDestinationDriver \<Rightarrow>
   (error option \<times> ('r, 'c) SnowflakeDestinationDriver) option" where
  "executeInsert cfg exec rows retryCount d =
     (case insert_try cfg exec rows d of
        None \<Rightarrow> None
      | Some (None, d1) \<Rightarrow> Some (None, d1)
      | Some (Some e, d1) \<Rightarrow>
          (case (if sf_enabled cfg then executeQuery exec Rollback d1 else (None, d1)) of
             (Some e', d2) \<Rightarrow> Some (Some e', d2)
           | (None, d2) \<Rightarrow>
               if retryCount < nullish (batch_maxRetries cfg) 3
               then executeInsert cfg exec rows (retryCount + 1) d2
               else Some (Some e, d2)))"
  by pat_completeness auto
termination
  by (relation "measure (\<lambda>(cfg, exec, rows, retryCount, d).
        Suc (nullish (batch_maxRetries cfg) 3) - retryCount)") auto

declare executeInsert.simps [simp del]

definition sf_insert ::
  "SnowflakeConfig \<Rightarrow> ('c \<Rightarrow> 'r statement \<Rightarrow> error option \<times> 'c) \<Rightarrow> 'r list \<Rightarrow>
   ('r, 'c) SnowflakeDestinationDriver \<Rightarrow>
   (error option \<times> ('r, 'c) SnowflakeDestinationDriver) option" where
  "sf_insert cfg exec rows d =
     (if sf_connection d = None
      then Some (Some ''Not connected to Snowflake. Call connect() first.'', d)
      else if rows = [] then Some (None, d)
      else (case executeInsert cfg exec rows 0 d of
              None \<Rightarrow> None
            | Some (None, d1) \<Rightarrow> Some (None, d1)
            | Some (Some e, d1) \<Rightarrow> Some (Some (''Failed to insert data into Snowflake: '' @ e), d1)))"

section \<open>Test doubles and scenarios\<close>

text \<open>A destination that accepts every batch and records it; sources and closes succeed.\<close>

definition recording_deps ::
  "'r fetch_seq \<Rightarrow> ('r list \<Rightarrow> error + 'r list) option \<Rightarrow> ('r, 'r list list) deps" where
  "recording_deps src tr =
     \<lparr>src_connect = (\<lambda>w. (None, w)), src_fetch = src, src_close = (\<lambda>w. (None, w)),
      dst_connect = (\<lambda>w. (None, w)), dst_insert = (\<lambda>batch w. (None, w @ [batch])),
      dst_close = (\<lambda>w. (None, w)), transformer = tr, has_logger = False,
      now = (\<lambda>w. ''2024-01-01T00:00:00.000Z'')\<rparr>"

text \<open>Scenario A: the source yields \<open>[[{id:1},{id:2}],[{id:3}]]\<close>, no transformer.\<close>

definition scenario_A :: "(row, row list list) deps" where
  "scenario_A =
     recording_deps
       (SeqYield [[(''id'', Num 1)], [(''id'', Num 2)]] (SeqYield [[(''id'', Num 3)]] SeqDone))
       None"

text \<open>
  The same dependencies with a spy on the destination: every batch passed to
  \<open>destination.insert\<close> is appended to a list kept beside the world, whatever the outcome of
  the call.
\<close>

definition with_insert_log :: "('r, 'w) deps \<Rightarrow> ('r, 'w \<times> 'r list list) deps" where
  "with_insert_log env =
     \<lparr>src_connect = (\<lambda>(w, l). case src_connect env w of (r, w') \<Rightarrow> (r, (w', l))),
      src_fetch = src_fetch env,
      src_close = (\<lambda>(w, l). case src_close env w of (r, w') \<Rightarrow> (r, (w', l))),
      dst_connect = (\<lambda>(w, l). case dst_connect env w of (r, w') \<Rightarrow> (r, (w', l))),
      dst_insert = (\<lambda>batch (w, l).
                      case dst_insert env batch w of (r, w') \<Rightarrow> (r, (w', l @ [batch]))),
      dst_close = (\<lambda>(w, l). case dst_close env w of (r, w') \<Rightarrow> (r, (w', l))),
      transformer = transformer env,
      has_logger = has_logger env,
      now = (\<lambda>(w, l). now env w)\<rparr>"

text \<open>Both \<open>close()\<close> calls reject; the world records which of them were called.\<close>

definition failing_closes :: "(row, string list) deps" where
  "failing_closes =
     \<lparr>src_connect = (\<lambda>w. (None, w)), src_fetch = SeqDone,
      src_close = (\<lambda>w. (Some ''source close failed'', w @ [''source.close''])),
      dst_connect = (\<lambda>w. (None, w)), dst_insert = (\<lambda>batch w. (None, w)),
      dst_close = (\<lambda>w. (Some ''destination close failed'', w @ [''destination.close''])),
      transformer = None, has_logger = True,
      now = (\<lambda>w. ''2024-01-01T00:00:00.000Z'')\<rparr>"

text \<open>Scenario B: one batch \<open>[{id:1},{id:2}]\<close>, and a transformer that maps \<open>id\<close> to \<open>id * 10\<close>.\<close>

definition times10 :: "row list \<Rightarrow> error + row list" where
  "times10 batch =
     Inr (map (map (\<lambda>(k, v). if k = ''id'' then (k, case v of Num n \<Rightarrow> Num (n * 10) | _ \<Rightarrow> v)
                               else (k, v))) batch)"

definition scenario_B :: "(row, row list list) deps" where
  "scenario_B =
     recording_deps (SeqYield [[(''id'', Num 1)], [(''id'', Num 2)]] SeqDone) (Some times10)"


text \<open>Two backends: one on which every \<open>INSERT\<close> fails, one on which every statement succeeds.\<close>

definition insert_always_fails :: "('r, unit) databricks_sdk" where
  "insert_always_fails =
     \<lparr>client_connect = Inr (), prepare = (\<lambda>c. (None, c)),
      db_execute = (\<lambda>c stmt. (case stmt of InsertValues g \<Rightarrow> Some ''write failed'' | _ \<Rightarrow> None, c)),
      connection_close = (\<lambda>c. None), client_close = None\<rparr>"

definition always_succeeds :: "('r, unit) databricks_sdk" where
  "always_succeeds =
     \<lparr>client_connect = Inr (), prepare = (\<lambda>c. (None, c)),
      db_execute = (\<lambda>c stmt. (None, c)),
      connection_close = (\<lambda>c. None), client_close = None\<rparr>"

text \<open>A configuration with transactions enabled, as the constructor leaves it.\<close>

definition databricks_config :: "nat \<Rightarrow> nat \<Rightarrow> DatabricksConfig" where
  "databricks_config n retries =
     constructor_defaults
       \<lparr>batchSize = Some n, transaction_enabled = Some True,
        transaction_maxRetries = Some retries\<rparr>"

text \<open>A Snowflake connection on which every row \<open>INSERT\<close> fails, and one that never fails.\<close>

definition row_insert_fails :: "unit \<Rightarrow> 'r statement \<Rightarrow> error option \<times> unit" where
  "row_insert_fails c stmt = (case stmt of InsertRow r \<Rightarrow> Some ''write failed'' | _ \<Rightarrow> None, c)"

definition never_fails :: "unit \<Rightarrow> 'r statement \<Rightarrow> error option \<times> unit" where
  "never_fails c stmt = (None, c)"

text \<open>A Snowflake configuration with transactions enabled and the default parallel limit.\<close>

definition snowflake_config :: "nat \<Rightarrow> nat \<Rightarrow> SnowflakeConfig" where
  "snowflake_config n retries =
     \<lparr>batch_size = Some n, batch_maxRetries = Some retries, sf_enabled = True,
      queryTimeout = None, maxParallelStatements = None\<rparr>"

section \<open>Notions used in the proofs\<close>

text \<open>
  What \<open>fetch()\<close> maintains about the arrays that existed before it started: they are all
  still there, unchanged; and while the generator is suspended at a \<open>yield\<close>, its local
  \<open>params\<close> refers to an array allocated after them.
\<close>

definition keeps :: "store \<Rightarrow> 'c fetch_frame \<Rightarrow> bool" where
  "keeps st0 fr \<longleftrightarrow> length st0 \<le> length (heap fr) \<and> take (length st0) (heap fr) = st0"

definition fetch_inv :: "store \<Rightarrow> 'c fetch_frame \<Rightarrow> bool" where
  "fetch_inv st0 fr \<longleftrightarrow>
     keeps st0 fr \<and> (point fr \<noteq> Finished \<and> point fr \<noteq> AtStart \<longrightarrow> length st0 \<le> params_local fr)"

text \<open>The statements sent between an earlier and a later state of the driver.\<close>

definition sent_since ::
  "('r, 'c) DatabricksDestinationDriver \<Rightarrow> ('r, 'c) DatabricksDestinationDriver \<Rightarrow> 'r statement list" where
  "sent_since d d' = drop (length (sent d)) (sent d')"

text \<open>Between \<open>d\<close> and \<open>d'\<close> the buffer is untouched and only statements satisfying \<open>P\<close> were sent.\<close>

definition sends_only ::
  "('r statement \<Rightarrow> bool) \<Rightarrow> ('r, 'c) DatabricksDestinationDriver \<Rightarrow>
   ('r, 'c) DatabricksDestinationDriver \<Rightarrow> bool" where
  "sends_only P d d' \<longleftrightarrow>
     pendingRows d' = pendingRows d \<and> (\<exists>xs. sent d' = sent d @ xs \<and> list_all P xs)"

text \<open>The slices issued between an earlier and a later state of the Snowflake driver.\<close>

definition groups_since ::
  "('r, 'c) SnowflakeDestinationDriver \<Rightarrow> ('r, 'c) SnowflakeDestinationDriver \<Rightarrow> 'r list list" where
  "groups_since d d' = drop (length (sf_groups d)) (sf_groups d')"

text \<open>The rows of the row \<open>INSERT\<close> statements in a list of statements, in order.\<close>

definition inserted_rows :: "'r statement list \<Rightarrow> 'r list" where
  "inserted_rows ss = concat (map (\<lambda>s. case s of InsertRow r \<Rightarrow> [r] | _ \<Rightarrow> []) ss)"

text \<open>The statements sent between an earlier and a later state of the Snowflake driver.\<close>

definition sf_sent_since ::
  "('r, 'c) SnowflakeDestinationDriver \<Rightarrow> ('r, 'c) SnowflakeDestinationDriver \<Rightarrow>
   'r statement list" where
  "sf_sent_since d d' = drop (length (sf_sent d)) (sf_sent d')"

text \<open>
  Between \<open>d\<close> and \<open>d'\<close> the driver stayed connected, the slices issued hold at most \<open>n\<close>
  rows each, and the row statements that were sent are those slices, one after the other.
\<close>

definition groups_within ::
  "nat \<Rightarrow> ('r, 'c) SnowflakeDestinationDriver \<Rightarrow> ('r, 'c) SnowflakeDestinationDriver \<Rightarrow> bool" where
  "groups_within n d d' \<longleftrightarrow>
     sf_connection d' \<noteq> None \<and>
     (\<exists>gs ss. sf_groups d' = sf_groups d @ gs \<and> sf_sent d' = sf_sent d @ ss \<and>
              list_all (\<lambda>g. length g \<le> n) gs \<and> inserted_rows ss = concat gs)"

text \<open>The statements of one failing attempt of the Snowflake writer.\<close>

definition attempt_statements :: "SnowflakeConfig \<Rightarrow> 'r list \<Rightarrow> 'r statement list" where
  "attempt_statements cfg rows =
     [Begin] @
     (if js_or (queryTimeout cfg) 0 \<noteq> 0
      then [SetStatementTimeout (js_or (queryTimeout cfg) 0)] else []) @
     map InsertRow (take (nullish (batch_size cfg) 1000) rows) @ [Rollback]"

section \<open>Properties of the pipeline orchestrator\<close>

lemma log_fields [simp]:
  "batchCount (log env l m p) = batchCount p"
  "totalRows (log env l m p) = totalRows p"
  "currentCursor (log env l m p) = currentCursor p"
  "connected (log env l m p) = connected p"
  by (simp_all add: log_def)

lemma getMetrics_log [simp]: "getMetrics (log env l m p) = getMetrics p"
  by (simp add: getMetrics_def)

lemma process_batch_ok:
  assumes "process_batch env batch (p, w) = (None, p', w')"
  shows "batchCount p' = batchCount p + 1 \<and> totalRows p' = totalRows p + length batch"
  using assms
  by (auto simp: process_batch_def Let_def split: sum.splits option.splits prod.splits)


text \<open>
  A loop that runs to the end of the generator adds one to \<open>batchCount\<close> and the length of
  the original batch to \<open>totalRows\<close> for every batch; the counters of a pipeline object that
  is used again are carried over.
\<close>

lemma process_loop_ok:
  "process_loop env src (p, w) = (None, p', w') \<Longrightarrow>
   batchCount p' = batchCount p + length (yielded src) \<and>
   totalRows p' = totalRows p + sum_list (map length (yielded src))"
proof (induction src arbitrary: p w)
  case SeqDone
  then show ?case by simp
next
  case (SeqThrow e)
  then show ?case by simp
next
  case (SeqYield batch rest)
  from SeqYield.prems obtain p1 w1 where
    b: "process_batch env batch (p, w) = (None, p1, w1)" and
    r: "process_loop env rest (p1, w1) = (None, p', w')"
    by (auto split: prod.splits option.splits)
  from process_batch_ok [OF b] SeqYield.IH [OF r] show ?case by simp
qed

lemma scenario_A_run:
  "process scenario_A (new_IPipeline, []) =
     (None,
      \<lparr>connected = False, batchCount = 2, totalRows = 3,
       currentCursor = Some \<lparr>position = 3, lastItem = Some [(''id'', Num 3)],
                             timestamp = ''2024-01-01T00:00:00.000Z''\<rparr>,
       logged = []\<rparr>,
      [[[(''id'', Num 1)], [(''id'', Num 2)]], [[(''id'', Num 3)]]])"
  by (simp add: scenario_A_def recording_deps_def process_def process_batch_def log_def
      new_IPipeline_def last_of_def Let_def)

text \<open>
  \<open>connect()\<close> and \<open>cleanup()\<close> leave the counters alone, so a whole \<open>run()\<close> that returns
  normally adds to them what its \<open>process()\<close> adds.
\<close>

lemma cleanup_counters:
  "batchCount (fst (snd (cleanup env (p, w)))) = batchCount p \<and>
   totalRows (fst (snd (cleanup env (p, w)))) = totalRows p \<and>
   currentCursor (fst (snd (cleanup env (p, w)))) = currentCursor p"
  by (simp add: cleanup_def Let_def split: prod.splits option.splits)

lemma connect_counters:
  assumes "connect env (p, w) = (None, p1, w1)"
  shows "batchCount p1 = batchCount p \<and> totalRows p1 = totalRows p"
  using assms
  by (auto simp: connect_def connect_failed_def Let_def split: if_splits prod.splits option.splits)

lemma process_counters:
  assumes "process env (p, w) = (None, p', w')"
  shows "batchCount p' = batchCount p + length (yielded (src_fetch env)) \<and>
         totalRows p' = totalRows p + sum_list (map length (yielded (src_fetch env)))"
proof -
  from assms obtain p1 where
    l: "process_loop env (src_fetch env)
          (log env LInfo ''Starting data processing'' p, w) = (None, p1, w')"
    and p': "p' = log env LInfo ''Data processing completed'' p1"
    by (auto simp: process_def split: prod.splits option.splits)
  from process_loop_ok [OF l] p' show ?thesis by simp
qed

lemma run_counters:
  assumes "run env (p, w) = (None, p', w')"
  shows "batchCount p' = batchCount p + length (yielded (src_fetch env)) \<and>
         totalRows p' = totalRows p + sum_list (map length (yielded (src_fetch env)))"
proof -
  obtain r1 p1 w1 where c: "connect env (p, w) = (r1, p1, w1)"
    by (cases "connect env (p, w)") auto
  obtain r2 p2 w2 where pr: "process env (p1, w1) = (r2, p2, w2)"
    by (cases "process env (p1, w1)") auto
  obtain r3 p3 w3 where cl: "cleanup env (p2, w2) = (r3, p3, w3)"
    by (cases "cleanup env (p2, w2)") auto
  from assms c pr cl have r1: "r1 = None" and r2: "r2 = None" and p3: "p3 = p'"
    by (auto simp: run_def split: option.splits)
  from connect_counters [of env p w p1 w1] c r1
  have k1: "batchCount p1 = batchCount p" "totalRows p1 = totalRows p" by simp_all
  from process_counters [of env p1 w1 p2 w2] pr r2
  have k2: "batchCount p2 = batchCount p1 + length (yielded (src_fetch env))"
    "totalRows p2 = totalRows p1 + sum_list (map length (yielded (src_fetch env)))" by simp_all
  from cleanup_counters [of env p2 w2] cl
  have k3: "batchCount p3 = batchCount p2" "totalRows p3 = totalRows p2" by simp_all
  from k1 k2 k3 p3 show ?thesis by simp
qed

lemmas pipeline_defs = run_def connect_def process_def cleanup_def process_batch_def log_def
  new_IPipeline_def last_of_def Let_def getMetrics_def

lemma scenario_A_first_run:
  "run scenario_A (new_IPipeline, []) =
     (None,
      \<lparr>connected = False, batchCount = 2, totalRows = 3,
       currentCursor = Some \<lparr>position = 3, lastItem = Some [(''id'', Num 3)],
                             timestamp = ''2024-01-01T00:00:00.000Z''\<rparr>,
       logged = []\<rparr>,
      [[[(''id'', Num 1)], [(''id'', Num 2)]], [[(''id'', Num 3)]]])"
  by (simp add: scenario_A_def recording_deps_def pipeline_defs)

lemma scenario_A_second_run:
  "run scenario_A
     (\<lparr>connected = False, batchCount = 2, totalRows = 3,
       currentCursor = Some \<lparr>position = 3, lastItem = Some [(''id'', Num 3)],
                             timestamp = ''2024-01-01T00:00:00.000Z''\<rparr>,
       logged = []\<rparr>,
      [[[(''id'', Num 1)], [(''id'', Num 2)]], [[(''id'', Num 3)]]]) =
     (None,
      \<lparr>connected = False, batchCount = 4, totalRows = 6,
       currentCursor = Some \<lparr>position = 6, lastItem = Some [(''id'', Num 3)],
                             timestamp = ''2024-01-01T00:00:00.000Z''\<rparr>,
       logged = []\<rparr>,
      [[[(''id'', Num 1)], [(''id'', Num 2)]], [[(''id'', Num 3)]],
       [[(''id'', Num 1)], [(''id'', Num 2)]], [[(''id'', Num 3)]]])"
  by (simp add: scenario_A_def recording_deps_def pipeline_defs)

text \<open>
  Where claim C3 as stated fails. The counters are fields of the pipeline object and are
  never reset. A second \<open>run()\<close> of the same pipeline over the source of scenario A, which
  yields 2 batches and 3 rows, ends with \<open>batchCount = 4\<close> and \<open>totalRows = 6\<close>.
\<close>

theorem second_run_reports_both_runs:
  "run scenario_A (snd (run scenario_A (new_IPipeline, []))) =
     (None,
      \<lparr>connected = False, batchCount = 4, totalRows = 6,
       currentCursor = Some \<lparr>position = 6, lastItem = Some [(''id'', Num 3)],
                             timestamp = ''2024-01-01T00:00:00.000Z''\<rparr>,
       logged = []\<rparr>,
      [[[(''id'', Num 1)], [(''id'', Num 2)]], [[(''id'', Num 3)]],
       [[(''id'', Num 1)], [(''id'', Num 2)]], [[(''id'', Num 3)]]]) \<and>
   m_totalRows (getMetrics (fst (snd (run scenario_A (snd (run scenario_A (new_IPipeline, []))))))) = 6 \<and>
   sum_list (map length (yielded (src_fetch scenario_A))) = 3 \<and>
   m_batchCount (getMetrics (fst (snd (run scenario_A (snd (run scenario_A (new_IPipeline, []))))))) = 4 \<and>
   length (yielded (src_fetch scenario_A)) = 2 \<and>
   m_totalRows (getMetrics (fst (snd (run scenario_A (snd (run scenario_A (new_IPipeline, []))))))) \<noteq>
     sum_list (map length (yielded (src_fetch scenario_A))) \<and>
   m_batchCount (getMetrics (fst (snd (run scenario_A (snd (run scenario_A (new_IPipeline, []))))))) \<noteq>
     length (yielded (src_fetch scenario_A))"
  by (simp add: scenario_A_first_run scenario_A_second_run getMetrics_def)
     (simp add: scenario_A_def recording_deps_def)

text \<open>
  Claim C3, as amended. When \<open>run()\<close>, or \<open>process()\<close> alone, returns normally, that is, the
  \<open>for await\<close> loop reached the end of the source's sequence and nothing threw,
  \<open>getMetrics()\<close> reports as \<open>totalRows\<close> its value before the call plus the sum of the lengths
  of the batches the source yielded (the batches before the transformer is applied), and as
  \<open>batchCount\<close> its value before the call plus their number. For a \<open>run()\<close> of a newly
  constructed pipeline, whose counters are 0, these are the sum and the number themselves.
\<close>

theorem run_totals:
  "(run env (p, w) = (None, p', w') \<longrightarrow>
      m_totalRows (getMetrics p') =
        m_totalRows (getMetrics p) + sum_list (map length (yielded (src_fetch env))) \<and>
      m_batchCount (getMetrics p') =
        m_batchCount (getMetrics p) + length (yielded (src_fetch env))) \<and>
   (process env (q, v) = (None, q', v') \<longrightarrow>
      m_totalRows (getMetrics q') =
        m_totalRows (getMetrics q) + sum_list (map length (yielded (src_fetch env))) \<and>
      m_batchCount (getMetrics q') =
        m_batchCount (getMetrics q) + length (yielded (src_fetch env))) \<and>
   (run env (new_IPipeline, u) = (None, n', u') \<longrightarrow>
      m_totalRows (getMetrics n') = sum_list (map length (yielded (src_fetch env))) \<and>
      m_batchCount (getMetrics n') = length (yielded (src_fetch env)))"
proof -
  have a: "run env (p, w) = (None, p', w') \<longrightarrow>
      m_totalRows (getMetrics p') =
        m_totalRows (getMetrics p) + sum_list (map length (yielded (src_fetch env))) \<and>
      m_batchCount (getMetrics p') =
        m_batchCount (getMetrics p) + length (yielded (src_fetch env))"
    using run_counters [of env p w p' w'] by (simp add: getMetrics_def)
  have b: "process env (q, v) = (None, q', v') \<longrightarrow>
      m_totalRows (getMetrics q') =
        m_totalRows (getMetrics q) + sum_list (map length (yielded (src_fetch env))) \<and>
      m_batchCount (getMetrics q') =
        m_batchCount (getMetrics q) + length (yielded (src_fetch env))"
    using process_counters [of env q v q' v'] by (simp add: getMetrics_def)
  have c: "run env (new_IPipeline, u) = (None, n', u') \<longrightarrow>
      m_totalRows (getMetrics n') = sum_list (map length (yielded (src_fetch env))) \<and>
      m_batchCount (getMetrics n') = length (yielded (src_fetch env))"
    using run_counters [of env new_IPipeline u n' u']
    by (simp add: getMetrics_def new_IPipeline_def)
  from a b c show ?thesis by blast
qed

text \<open>
  Scenario A: the first \<open>run()\<close> gives \<open>totalRows = 3\<close> and \<open>batchCount = 2\<close>, the second one
  on the same object 3 + 3 and 2 + 2.
\<close>

theorem run_totals_witness:
  "run scenario_A
     (\<lparr>connected = False, batchCount = 2, totalRows = 3,
       currentCursor = Some \<lparr>position = 3, lastItem = Some [(''id'', Num 3)],
                             timestamp = ''2024-01-01T00:00:00.000Z''\<rparr>,
       logged = []\<rparr>,
      [[[(''id'', Num 1)], [(''id'', Num 2)]], [[(''id'', Num 3)]]]) =
     (None,
      \<lparr>connected = False, batchCount = 4, totalRows = 6,
       currentCursor = Some \<lparr>position = 6, lastItem = Some [(''id'', Num 3)],
                             timestamp = ''2024-01-01T00:00:00.000Z''\<rparr>,
       logged = []\<rparr>,
      [[[(''id'', Num 1)], [(''id'', Num 2)]], [[(''id'', Num 3)]],
       [[(''id'', Num 1)], [(''id'', Num 2)]], [[(''id'', Num 3)]]]) \<and>
   process scenario_A (new_IPipeline, []) =
     (None,
      \<lparr>connected = False, batchCount = 2, totalRows = 3,
       currentCursor = Some \<lparr>position = 3, lastItem = Some [(''id'', Num 3)],
                             timestamp = ''2024-01-01T00:00:00.000Z''\<rparr>,
       logged = []\<rparr>,
      [[[(''id'', Num 1)], [(''id'', Num 2)]], [[(''id'', Num 3)]]]) \<and>
   run scenario_A (new_IPipeline, []) =
     (None,
      \<lparr>connected = False, batchCount = 2, totalRows = 3,
       currentCursor = Some \<lparr>position = 3, lastItem = Some [(''id'', Num 3)],
                             timestamp = ''2024-01-01T00:00:00.000Z''\<rparr>,
       logged = []\<rparr>,
      [[[(''id'', Num 1)], [(''id'', Num 2)]], [[(''id'', Num 3)]]]) \<and>
   sum_list (map length (yielded (src_fetch scenario_A))) = 3 \<and>
   length (yielded (src_fetch scenario_A)) = 2 \<and>
   (6::nat) = 3 + sum_list (map length (yielded (src_fetch scenario_A))) \<and>
   (4::nat) = 2 + length (yielded (src_fetch scenario_A))"
proof -
  let ?p1 = "\<lparr>connected = False, batchCount = 2, totalRows = 3,
       currentCursor = Some \<lparr>position = 3, lastItem = Some [(''id'', Num 3)],
                             timestamp = ''2024-01-01T00:00:00.000Z''\<rparr>,
       logged = []\<rparr> :: row IPipeline"
  let ?p2 = "\<lparr>connected = False, batchCount = 4, totalRows = 6,
       currentCursor = Some \<lparr>position = 6, lastItem = Some [(''id'', Num 3)],
                             timestamp = ''2024-01-01T00:00:00.000Z''\<rparr>,
       logged = []\<rparr> :: row IPipeline"
  let ?w1 = "[[[(''id'', Num 1)], [(''id'', Num 2)]], [[(''id'', Num 3)]]] :: row list list"
  from run_totals [of scenario_A ?p1 ?w1 ?p2 "?w1 @ ?w1" new_IPipeline "[]" ?p1 ?w1 "[]" ?p1 ?w1]
    scenario_A_first_run scenario_A_second_run scenario_A_run
  have "m_totalRows (getMetrics ?p2) =
          m_totalRows (getMetrics ?p1) + sum_list (map length (yielded (src_fetch scenario_A)))"
    and "m_batchCount (getMetrics ?p2) =
          m_batchCount (getMetrics ?p1) + length (yielded (src_fetch scenario_A))"
    and "m_totalRows (getMetrics ?p1) = sum_list (map length (yielded (src_fetch scenario_A)))"
    and "m_batchCount (getMetrics ?p1) = length (yielded (src_fetch scenario_A))"
    by simp_all
  then have "sum_list (map length (yielded (src_fetch scenario_A))) = 3"
    and "length (yielded (src_fetch scenario_A)) = 2"
    and "(6::nat) = 3 + sum_list (map length (yielded (src_fetch scenario_A)))"
    and "(4::nat) = 2 + length (yielded (src_fetch scenario_A))"
    by (simp_all add: getMetrics_def)
  with scenario_A_first_run scenario_A_second_run scenario_A_run show ?thesis by blast
qed

text \<open>
  The loop body with a transformer configured: the outcome and the world it leaves are
  those of \<open>insert\<close> on the transformer's output, and after a successful insert the cursor
  has as \<open>lastItem\<close> the last record of the batch as the source yielded it.
\<close>

lemma process_batch_inserts_transformed:
  assumes "transformer env = Some f" and "f batch = Inr tb"
  shows "fst (process_batch env batch (p, w)) = fst (dst_insert env tb w) \<and>
         snd (snd (process_batch env batch (p, w))) = snd (dst_insert env tb w) \<and>
         (fst (dst_insert env tb w) = None \<longrightarrow>
            map_option lastItem (currentCursor (fst (snd (process_batch env batch (p, w)))))
              = Some (last_of batch))"
  using assms
  by (auto simp: process_batch_def Let_def split: prod.splits option.splits)

text \<open>Scenario B, run through \<open>process()\<close>: the destination receives \<open>[{id:10},{id:20}]\<close>.\<close>

lemma scenario_B_run:
  "process scenario_B (new_IPipeline, []) =
     (None,
      \<lparr>connected = False, batchCount = 1, totalRows = 2,
       currentCursor = Some \<lparr>position = 2, lastItem = Some [(''id'', Num 2)],
                             timestamp = ''2024-01-01T00:00:00.000Z''\<rparr>,
       logged = []\<rparr>,
      [[[(''id'', Num 10)], [(''id'', Num 20)]]])"
  by (simp add: scenario_B_def recording_deps_def process_def process_batch_def log_def
      new_IPipeline_def last_of_def Let_def times10_def)

lemma log_src_fetch [simp]: "log (env\<lparr>src_fetch := x\<rparr>) l m p = log env l m p"
  by (simp add: log_def)

lemma process_batch_src_fetch [simp]:
  "process_batch (env\<lparr>src_fetch := x\<rparr>) batch s = process_batch env batch s"
  by (cases s) (simp add: process_batch_def Let_def split: sum.splits prod.splits option.splits)

lemma process_loop_src_fetch [simp]:
  "process_loop (env\<lparr>src_fetch := x\<rparr>) src s = process_loop env src s"
  by (induction src arbitrary: s) (simp_all split: prod.splits option.splits)







text \<open>The spy passes everything through to the dependencies it wraps.\<close>

lemma with_insert_log_fields [simp]:
  "src_fetch (with_insert_log env) = src_fetch env"
  "transformer (with_insert_log env) = transformer env"
  "has_logger (with_insert_log env) = has_logger env"
  "dst_insert (with_insert_log env) batch (w, l) =
     (case dst_insert env batch w of (r, w') \<Rightarrow> (r, (w', l @ [batch])))"
  "now (with_insert_log env) (w, l) = now env w"
  by (simp_all add: with_insert_log_def)

lemma with_insert_log_src_fetch:
  "with_insert_log (env\<lparr>src_fetch := x\<rparr>) = (with_insert_log env)\<lparr>src_fetch := x\<rparr>"
  by (simp add: with_insert_log_def)

lemma log_with_insert_log [simp]: "log (with_insert_log env) lv m p = log env lv m p"
  by (simp add: log_def)

text \<open>With the spy the loop does what it does without it.\<close>

lemma process_batch_spied:
  "process_batch (with_insert_log env) batch (p, (w, l)) =
     (case process_batch env batch (p, w) of
        (r, p', w') \<Rightarrow>
          (r, p', (w', case (case transformer env of None \<Rightarrow> Inr batch | Some f \<Rightarrow> f batch) of
                         Inl e \<Rightarrow> l | Inr tb \<Rightarrow> l @ [tb])))"
  by (simp add: process_batch_def Let_def split: sum.splits prod.splits option.splits)

lemma process_loop_spied:
  "process_loop (with_insert_log env) src (p, (w, l)) = (r, p', (w', l')) \<Longrightarrow>
   process_loop env src (p, w) = (r, p', w')"
proof (induction src arbitrary: p w l)
  case SeqDone
  then show ?case by simp
next
  case (SeqThrow e)
  then show ?case by simp
next
  case (SeqYield batch rest)
  obtain r1 p1 w1 where b: "process_batch env batch (p, w) = (r1, p1, w1)"
    by (cases "process_batch env batch (p, w)") auto
  show ?case
  proof (cases r1)
    case (Some e)
    with SeqYield.prems b show ?thesis by (auto simp: process_batch_spied)
  next
    case None
    with SeqYield.prems b SeqYield.IH show ?thesis
      by (auto simp: process_batch_spied split: sum.splits option.splits)
  qed
qed

lemma process_spied:
  assumes "process (with_insert_log env) (p, (w, l)) = (r, p', (w', l'))"
  shows "process env (p, w) = (r, p', w')"
proof -
  let ?p0 = "log env LInfo ''Starting data processing'' p"
  obtain r1 p1 w1 l1 where
    a: "process_loop (with_insert_log env) (src_fetch env) (?p0, (w, l)) = (r1, p1, (w1, l1))"
    by (cases "process_loop (with_insert_log env) (src_fetch env) (?p0, (w, l))") auto
  from process_loop_spied [OF a] have b: "process_loop env (src_fetch env) (?p0, w) = (r1, p1, w1)" .
  from assms a b show ?thesis
    by (cases r1) (auto simp: process_def)
qed

lemma process_batch_transformed:
  assumes "transformer env = Some f"
    and "process_batch (with_insert_log env) batch (p, (w, l)) = (None, p1, (w1, l1))"
  shows "\<exists>tb. f batch = Inr tb \<and> l1 = l @ [tb] \<and>
              map_option lastItem (currentCursor p1) = Some (last_of batch)"
  using assms
  by (auto simp: process_batch_def Let_def split: sum.splits prod.splits option.splits)

lemma process_loop_transformed:
  assumes tr: "transformer env = Some f"
  shows "process_loop (with_insert_log env) src (p, (w, l)) = (None, p', (w', l')) \<Longrightarrow>
         src = foldr SeqYield (yielded src) SeqDone \<and>
         (\<exists>tbs. l' = l @ tbs \<and> map Inr tbs = map f (yielded src) \<and>
                 (yielded src \<noteq> [] \<longrightarrow>
                    f (last (yielded src)) = Inr (last l') \<and>
                    map_option lastItem (currentCursor p') = Some (last_of (last (yielded src)))))"
proof (induction src arbitrary: p w l)
  case SeqDone
  then show ?case by simp
next
  case (SeqThrow e)
  then show ?case by simp
next
  case (SeqYield batch rest)
  from SeqYield.prems obtain p1 w1 l1 where
    b: "process_batch (with_insert_log env) batch (p, (w, l)) = (None, p1, (w1, l1))" and
    r: "process_loop (with_insert_log env) rest (p1, (w1, l1)) = (None, p', (w', l'))"
    by (auto split: prod.splits option.splits)
  from process_batch_transformed [OF tr b] obtain tb where
    tb: "f batch = Inr tb" and l1: "l1 = l @ [tb]"
    and c1: "map_option lastItem (currentCursor p1) = Some (last_of batch)" by blast
  from SeqYield.IH [OF r] obtain tbs where
    s: "rest = foldr SeqYield (yielded rest) SeqDone"
    and l': "l' = l1 @ tbs" and m: "map Inr tbs = map f (yielded rest)"
    and c: "yielded rest \<noteq> [] \<longrightarrow>
              f (last (yielded rest)) = Inr (last l') \<and>
              map_option lastItem (currentCursor p') = Some (last_of (last (yielded rest)))"
    by blast
  show ?case
  proof (cases "yielded rest = []")
    case True
    with s have "rest = SeqDone" by simp
    with r have "p' = p1" "l' = l1" by simp_all
    with True tb l1 c1 s show ?thesis by simp
  next
    case False
    with tb l1 l' m c s show ?thesis by simp
  qed
qed

lemma process_loop_prefix:
  "process_loop env (foldr SeqYield (xs @ ys) SeqDone) s = (None, s') \<Longrightarrow>
   \<exists>s1. process_loop env (foldr SeqYield xs SeqDone) s = (None, s1)"
proof (induction xs arbitrary: s)
  case Nil
  then show ?case by simp
next
  case (Cons x xs)
  then show ?case by (auto split: prod.splits option.splits)
qed


lemma yielded_foldr [simp]: "yielded (foldr SeqYield xs SeqDone) = xs"
  by (induction xs) simp_all

lemma process_through_batch:
  assumes tr: "transformer env = Some f"
    and ok: "process (with_insert_log env) (p, (w, l)) = (None, p', (w', l'))"
    and n: "n < length (yielded (src_fetch env))"
  shows "\<exists>p1 w1 l1.
           process (with_insert_log
                      (env\<lparr>src_fetch :=
                             foldr SeqYield (take (Suc n) (yielded (src_fetch env))) SeqDone\<rparr>))
             (p, (w, l)) = (None, p1, (w1, l1)) \<and>
           f (yielded (src_fetch env) ! n) = Inr (last l1) \<and>
           map_option lastItem (currentCursor p1) = Some (last_of (yielded (src_fetch env) ! n))"
proof -
  let ?ys = "yielded (src_fetch env)"
  let ?p0 = "log env LInfo ''Starting data processing'' p"
  let ?pre = "take (Suc n) ?ys"
  from ok obtain q where
    lp: "process_loop (with_insert_log env) (src_fetch env) (?p0, (w, l)) = (None, q, (w', l'))"
    by (auto simp: process_def split: prod.splits option.splits)
  from process_loop_transformed [OF tr lp]
  have src: "src_fetch env = foldr SeqYield ?ys SeqDone" by simp
  have "?ys = ?pre @ drop (Suc n) ?ys" by simp
  with src have "src_fetch env = foldr SeqYield (?pre @ drop (Suc n) ?ys) SeqDone" by simp
  with lp have "process_loop (with_insert_log env)
                  (foldr SeqYield (?pre @ drop (Suc n) ?ys) SeqDone) (?p0, (w, l)) =
                (None, q, (w', l'))" by simp
  from process_loop_prefix [OF this] obtain p1 w1 l1 where
    pre: "process_loop (with_insert_log env) (foldr SeqYield ?pre SeqDone) (?p0, (w, l)) =
            (None, p1, (w1, l1))"
    by (metis surj_pair)
  from n have ne: "?pre \<noteq> []" and la: "last ?pre = ?ys ! n"
    by (simp_all add: take_Suc_conv_app_nth)
  from process_loop_transformed [OF tr pre] ne la
  have f: "f (?ys ! n) = Inr (last l1)"
    and c: "map_option lastItem (currentCursor p1) = Some (last_of (?ys ! n))"
    by auto
  have "process (with_insert_log (env\<lparr>src_fetch := foldr SeqYield ?pre SeqDone\<rparr>)) (p, (w, l)) =
          (None, log env LInfo ''Data processing completed'' p1, (w1, l1))"
    using pre by (simp add: process_def with_insert_log_src_fetch)
  with f c show ?thesis by auto
qed

text \<open>
  Claim C6. Let a transformer \<open>f\<close> be configured and let \<open>process()\<close> return normally, with
  a spy listing what is passed to \<open>destination.insert\<close>. The spy does not change the run.
  The batches the destination received during the run are, in order, the transformer's
  outputs for the batches the source yielded. The cursor the run leaves has as \<open>lastItem\<close>
  the last record of the last batch as the source yielded it; and for every batch the
  source yielded, the run cut off after that batch also returns normally, has passed the
  transformer's output for it to \<open>insert\<close> last, and leaves a cursor, the snapshot recorded
  after that batch, whose \<open>lastItem\<close> is the last record of the batch as yielded.
\<close>

theorem process_inserts_transformed_keeps_original_in_cursor:
  assumes tr: "transformer env = Some f"
    and ok: "process (with_insert_log env) (p, (w, l)) = (None, p', (w', l'))"
  shows "process env (p, w) = (None, p', w') \<and>
         take (length l) l' = l \<and>
         map Inr (drop (length l) l') = map f (yielded (src_fetch env)) \<and>
         (yielded (src_fetch env) \<noteq> [] \<longrightarrow>
            map_option lastItem (currentCursor p') =
              Some (last_of (last (yielded (src_fetch env))))) \<and>
         (\<forall>n < length (yielded (src_fetch env)).
            \<exists>p1 w1 l1.
              process (with_insert_log
                         (env\<lparr>src_fetch :=
                                foldr SeqYield (take (Suc n) (yielded (src_fetch env))) SeqDone\<rparr>))
                (p, (w, l)) = (None, p1, (w1, l1)) \<and>
              f (yielded (src_fetch env) ! n) = Inr (last l1) \<and>
              map_option lastItem (currentCursor p1) =
                Some (last_of (yielded (src_fetch env) ! n)))"
proof -
  let ?p0 = "log env LInfo ''Starting data processing'' p"
  from ok obtain q where
    lp: "process_loop (with_insert_log env) (src_fetch env) (?p0, (w, l)) = (None, q, (w', l'))"
    and p': "p' = log env LInfo ''Data processing completed'' q"
    by (auto simp: process_def split: prod.splits option.splits)
  from process_loop_transformed [OF tr lp] obtain tbs where
    l': "l' = l @ tbs" and m: "map Inr tbs = map f (yielded (src_fetch env))"
    and c: "yielded (src_fetch env) \<noteq> [] \<longrightarrow>
              map_option lastItem (currentCursor q) =
                Some (last_of (last (yielded (src_fetch env))))"
    by blast
  from process_spied [OF ok] have a: "process env (p, w) = (None, p', w')" .
  from l' m have b: "take (length l) l' = l \<and>
                     map Inr (drop (length l) l') = map f (yielded (src_fetch env))" by simp
  from c p' have d: "yielded (src_fetch env) \<noteq> [] \<longrightarrow>
            map_option lastItem (currentCursor p') =
              Some (last_of (last (yielded (src_fetch env))))" by simp
  from a b d process_through_batch [OF tr ok] show ?thesis by blast
qed

text \<open>
  Scenario B: the source yields \<open>[[{id:1},{id:2}]]\<close>; the destination receives
  \<open>[{id:10},{id:20}]\<close> and the cursor's \<open>lastItem\<close> is \<open>{id:2}\<close>.
\<close>

lemma scenario_B_spied_run:
  "process (with_insert_log scenario_B) (new_IPipeline, ([], [])) =
     (None,
      \<lparr>connected = False, batchCount = 1, totalRows = 2,
       currentCursor = Some \<lparr>position = 2, lastItem = Some [(''id'', Num 2)],
                             timestamp = ''2024-01-01T00:00:00.000Z''\<rparr>,
       logged = []\<rparr>,
      ([[[(''id'', Num 10)], [(''id'', Num 20)]]], [[[(''id'', Num 10)], [(''id'', Num 20)]]]))"
  by (simp add: with_insert_log_def scenario_B_def recording_deps_def process_def
      process_batch_def log_def new_IPipeline_def last_of_def Let_def times10_def)

theorem process_inserts_transformed_keeps_original_in_cursor_witness:
  "transformer scenario_B = Some times10 \<and>
   process (with_insert_log scenario_B) (new_IPipeline, ([], [])) =
     (None,
      \<lparr>connected = False, batchCount = 1, totalRows = 2,
       currentCursor = Some \<lparr>position = 2, lastItem = Some [(''id'', Num 2)],
                             timestamp = ''2024-01-01T00:00:00.000Z''\<rparr>,
       logged = []\<rparr>,
      ([[[(''id'', Num 10)], [(''id'', Num 20)]]], [[[(''id'', Num 10)], [(''id'', Num 20)]]])) \<and>
   yielded (src_fetch scenario_B) = [[[(''id'', Num 1)], [(''id'', Num 2)]]] \<and>
   map Inr (drop (length ([] :: row list list)) [[[(''id'', Num 10)], [(''id'', Num 20)]]]) =
     map times10 (yielded (src_fetch scenario_B)) \<and>
   process scenario_B (new_IPipeline, []) =
     (None,
      \<lparr>connected = False, batchCount = 1, totalRows = 2,
       currentCursor = Some \<lparr>position = 2, lastItem = Some [(''id'', Num 2)],
                             timestamp = ''2024-01-01T00:00:00.000Z''\<rparr>,
       logged = []\<rparr>,
      [[[(''id'', Num 10)], [(''id'', Num 20)]]]) \<and>
   last_of (last (yielded (src_fetch scenario_B))) = Some [(''id'', Num 2)]"
proof -
  have t: "transformer scenario_B = Some times10"
    by (simp add: scenario_B_def recording_deps_def)
  have y: "yielded (src_fetch scenario_B) = [[[(''id'', Num 1)], [(''id'', Num 2)]]]"
    by (simp add: scenario_B_def recording_deps_def)
  have la: "last_of (last (yielded (src_fetch scenario_B))) = Some [(''id'', Num 2)]"
    by (simp add: y last_of_def)
  from process_inserts_transformed_keeps_original_in_cursor [OF t scenario_B_spied_run]
  have "process scenario_B (new_IPipeline, []) =
     (None,
      \<lparr>connected = False, batchCount = 1, totalRows = 2,
       currentCursor = Some \<lparr>position = 2, lastItem = Some [(''id'', Num 2)],
                             timestamp = ''2024-01-01T00:00:00.000Z''\<rparr>,
       logged = []\<rparr>,
      [[[(''id'', Num 10)], [(''id'', Num 20)]]])"
    and "map Inr (drop (length ([] :: row list list)) [[[(''id'', Num 10)], [(''id'', Num 20)]]]) =
     map times10 (yielded (src_fetch scenario_B))"
    by blast+
  with t scenario_B_spied_run y la show ?thesis by blast
qed

text \<open>\<open>cleanup()\<close> returns normally whatever the two \<open>close()\<close> calls do.\<close>

lemma cleanup_returns: "fst (cleanup env s) = None"
  by (cases s) (simp add: cleanup_def Let_def split: prod.splits)

text \<open>
  Claim C2, evaluated where both \<open>source.close()\<close> and \<open>destination.close()\<close> reject: both
  calls are made and both failures are logged, and \<open>cleanup()\<close> then returns normally instead
  of throwing; \<open>run()\<close> on such a pipeline returns normally too.
\<close>

theorem cleanup_both_closes_fail:
  "cleanup failing_closes (new_IPipeline\<lparr>connected := True\<rparr>, []) =
     (None,
      \<lparr>connected = False, batchCount = 0, totalRows = 0, currentCursor = None,
       logged = [(LInfo, ''Cleaning up resources...''),
                 (LError, ''Failed to close source connection''),
                 (LError, ''Failed to close destination connection''),
                 (LInfo, ''Cleanup completed'')]\<rparr>,
      [''source.close'', ''destination.close''])"
  by (simp add: cleanup_def failing_closes_def log_def new_IPipeline_def Let_def)

lemma run_both_closes_fail: "fst (run failing_closes (new_IPipeline, [])) = None"
  by (simp add: run_def connect_def process_def cleanup_def failing_closes_def log_def new_IPipeline_def Let_def)

section \<open>Properties of the source paginator\<close>

lemmas fetch_defs = fetch_next_def loop_body_def overwrite_cursor_def next_cursor_def
  new_fetch_def deref_def array_set_def truthy_def scripted_library_def scripted_execute_def
  scenario_C_config_def scenario_C_pages_def

lemma scenario_C_pull:
  "pull 4 scenario_C_config (scripted_library scenario_C_pages) (new_fetch [[Num 0]] None) =
    ([Yield [[(''id'', Num 1)], [(''id'', Num 2)]], Yield [[(''id'', Num 3)]], Return, Return],
     \<lparr>heap = [[Num 0], [Num 3]],
      connection = Some \<lparr>script = [],
         calls = [(query scenario_C_config, [Num 0]), (query scenario_C_config, [Num 2]),
                  (query scenario_C_config, [Num 3])]\<rparr>,
      point = Finished, cursorValue = Num 3, params_local = 1\<rparr>)"
  by (simp add: fetch_defs numeral_nat)

text \<open>
  Claim C4 (scenario C). Against a backend that returns \<open>[{id:1},{id:2}]\<close>, \<open>[{id:3}]\<close> and
  then \<open>[]\<close>, the generator yields the two non-empty pages and then returns; a further
  \<open>next()\<close> finds it finished. Exactly three queries were run, and their bind values at
  index 0 were \<open>0\<close>, \<open>2\<close> and \<open>3\<close>.
\<close>

theorem scenario_C_three_queries:
  "fst (pull 4 scenario_C_config (scripted_library scenario_C_pages) (new_fetch [[Num 0]] None)) =
     [Yield [[(''id'', Num 1)], [(''id'', Num 2)]], Yield [[(''id'', Num 3)]], Return, Return] \<and>
   map_option (map (\<lambda>call. snd call ! 0) \<circ> calls)
     (connection (snd (pull 4 scenario_C_config (scripted_library scenario_C_pages)
        (new_fetch [[Num 0]] None)))) = Some [Num 0, Num 2, Num 3] \<and>
   map_option (length \<circ> calls)
     (connection (snd (pull 4 scenario_C_config (scripted_library scenario_C_pages)
        (new_fetch [[Num 0]] None)))) = Some 3"
  by (simp add: scenario_C_pull)

lemma loop_body_yield: "loop_body cfg lib fr = (Yield rows, fr') \<Longrightarrow> rows \<noteq> []"
  by (auto simp: loop_body_def Let_def split: option.splits prod.splits exec_result.splits if_splits)

lemma fetch_next_yield: "fetch_next cfg lib fr = (Yield rows, fr') \<Longrightarrow> rows \<noteq> []"
  by (auto simp: fetch_next_def split: gen_point.splits sum.splits option.splits dest: loop_body_yield)

lemma pull_yield: "Yield rows \<in> set (fst (pull n cfg lib fr)) \<Longrightarrow> rows \<noteq> []"
proof (induction n arbitrary: fr)
  case 0
  then show ?case by simp
next
  case (Suc n)
  obtain r fr' where s: "fetch_next cfg lib fr = (r, fr')" by (cases "fetch_next cfg lib fr")
  obtain rs fr'' where t: "pull n cfg lib fr' = (rs, fr'')" by (cases "pull n cfg lib fr'")
  from Suc.prems s t have "r = Yield rows \<or> Yield rows \<in> set (fst (pull n cfg lib fr'))"
    by auto
  then show ?case
  proof
    assume "r = Yield rows"
    with s show ?thesis by (auto dest: fetch_next_yield)
  next
    assume "Yield rows \<in> set (fst (pull n cfg lib fr'))"
    then show ?thesis by (rule Suc.IH)
  qed
qed

lemma loop_body_empty:
  assumes "connection fr = Some c"
    and "fst (execute lib c (query cfg) (deref (overwrite_cursor cfg fr) (params_local fr))) =
           Rows (Some [])"
  shows "fst (loop_body cfg lib fr) = Return \<and> point (snd (loop_body cfg lib fr)) = Finished"
  using assms by (auto simp: loop_body_def Let_def split: prod.splits)

text \<open>
  Claim C5. Whatever the configuration, the backend and the state of the generator, every
  batch that any number of \<open>next()\<close> calls yields is non-empty; and when the query of a loop
  pass returns an empty result set, that pass ends the generator without a yield.
\<close>

theorem fetch_never_yields_empty:
  "(Yield rows \<in> set (fst (pull n cfg lib fr)) \<longrightarrow> rows \<noteq> []) \<and>
   (connection fr = Some c \<longrightarrow>
    fst (execute lib c (query cfg) (deref (overwrite_cursor cfg fr) (params_local fr))) =
      Rows (Some []) \<longrightarrow>
    fst (loop_body cfg lib fr) = Return \<and> point (snd (loop_body cfg lib fr)) = Finished)"
  using pull_yield [of rows n cfg lib fr] loop_body_empty [of fr c lib cfg] by blast

theorem fetch_never_yields_empty_witness:
  "Yield [[(''id'', Num 3)]] \<in>
     set (fst (pull 4 scenario_C_config (scripted_library scenario_C_pages)
                 (new_fetch [[Num 0]] None))) \<and>
   [[(''id'', Num 3)]] \<noteq> ([] :: row list) \<and>
   connection (\<lparr>heap = [[Num 0], [Num 2]],
                connection = Some \<lparr>script = [Rows (Some [])], calls = []\<rparr>,
                point = AtYield [[(''id'', Num 3)]], cursorValue = Num 3,
                params_local = 1\<rparr>) = Some \<lparr>script = [Rows (Some [])], calls = []\<rparr> \<and>
   fst (execute (scripted_library scenario_C_pages) \<lparr>script = [Rows (Some [])], calls = []\<rparr>
          (query scenario_C_config)
          (deref (overwrite_cursor scenario_C_config
                    \<lparr>heap = [[Num 0], [Num 2]],
                     connection = Some \<lparr>script = [Rows (Some [])], calls = []\<rparr>,
                     point = AtYield [[(''id'', Num 3)]], cursorValue = Num 3,
                     params_local = 1\<rparr>) 1)) = Rows (Some []) \<and>
   fst (loop_body scenario_C_config (scripted_library scenario_C_pages)
          \<lparr>heap = [[Num 0], [Num 2]],
           connection = Some \<lparr>script = [Rows (Some [])], calls = []\<rparr>,
           point = AtYield [[(''id'', Num 3)]], cursorValue = Num 3,
           params_local = 1\<rparr>) = Return"
proof -
  let ?fr = "\<lparr>heap = [[Num 0], [Num 2]],
              connection = Some \<lparr>script = [Rows (Some [])], calls = []\<rparr>,
              point = AtYield [[(''id'', Num 3)]], cursorValue = Num 3,
              params_local = 1\<rparr> :: scripted fetch_frame"
  let ?c = "\<lparr>script = [Rows (Some [])], calls = []\<rparr>"
  have y: "Yield [[(''id'', Num 3)]] \<in>
     set (fst (pull 4 scenario_C_config (scripted_library scenario_C_pages)
                 (new_fetch [[Num 0]] None)))"
    by (simp add: scenario_C_pull)
  have c: "connection ?fr = Some ?c" by simp
  have e: "fst (execute (scripted_library scenario_C_pages) ?c (query scenario_C_config)
             (deref (overwrite_cursor scenario_C_config ?fr) (params_local ?fr))) = Rows (Some [])"
    by (simp add: fetch_defs)
  from fetch_never_yields_empty [where rows = "[[(''id'', Num 3)]]" and n = 4
      and cfg = scenario_C_config and lib = "scripted_library scenario_C_pages"
      and fr = "new_fetch [[Num 0]] None"] y
  have n: "[[(''id'', Num 3)]] \<noteq> ([] :: row list)" by blast
  from fetch_never_yields_empty [where cfg = scenario_C_config
      and lib = "scripted_library scenario_C_pages" and fr = ?fr and c = ?c] c e
  have r: "fst (loop_body scenario_C_config (scripted_library scenario_C_pages) ?fr) = Return"
    by blast
  from y n c e r show ?thesis by simp
qed

lemma overwrite_cursor_keeps:
  assumes "keeps st0 fr" and "length st0 \<le> params_local fr"
  shows "length st0 \<le> length (overwrite_cursor cfg fr) \<and>
         take (length st0) (overwrite_cursor cfg fr) = st0"
  using assms by (auto simp: keeps_def overwrite_cursor_def split: option.splits)

lemma loop_body_keeps:
  assumes "keeps st0 fr" and "length st0 \<le> params_local fr"
  shows "keeps st0 (snd (loop_body cfg lib fr)) \<and>
         params_local (snd (loop_body cfg lib fr)) = params_local fr"
  using overwrite_cursor_keeps [OF assms, of cfg]
  by (auto simp: loop_body_def Let_def keeps_def
      split: option.splits prod.splits exec_result.splits)

lemma fetch_next_inv:
  assumes "fetch_inv st0 fr"
  shows "fetch_inv st0 (snd (fetch_next cfg lib fr))"
proof (cases "point fr")
  case AtStart
  let ?fr1 = "\<lambda>c. fr\<lparr>heap := heap fr @ [case params cfg of Some a \<Rightarrow> deref (heap fr) a | None \<Rightarrow> []],
                     connection := Some c, cursorValue := Undefined,
                     params_local := length (heap fr)\<rparr>"
  have k: "keeps st0 (?fr1 c)" "length st0 \<le> params_local (?fr1 c)" for c
    using assms by (auto simp: fetch_inv_def keeps_def)
  show ?thesis
    using AtStart assms loop_body_keeps [OF k]
    by (auto simp: fetch_next_def fetch_inv_def keeps_def split: sum.splits option.splits)
next
  case (AtYield rows)
  have k: "keeps st0 (fr\<lparr>cursorValue := v\<rparr>)" "length st0 \<le> params_local (fr\<lparr>cursorValue := v\<rparr>)" for v
    using assms AtYield by (auto simp: fetch_inv_def keeps_def)
  show ?thesis
    using AtYield assms loop_body_keeps [OF k]
    by (auto simp: fetch_next_def fetch_inv_def keeps_def split: option.splits)
next
  case Finished
  then show ?thesis using assms by (simp add: fetch_next_def)
qed

lemma snd_pull_Suc:
  "snd (pull (Suc n) cfg lib fr) = snd (pull n cfg lib (snd (fetch_next cfg lib fr)))"
  by (simp split: prod.splits)

lemma pull_inv: "fetch_inv st0 fr \<Longrightarrow> fetch_inv st0 (snd (pull n cfg lib fr))"
proof (induction n arbitrary: fr)
  case 0
  then show ?case by simp
next
  case (Suc n)
  from Suc.IH [OF fetch_next_inv [OF Suc.prems, of cfg lib]]
  show ?case by (simp only: snd_pull_Suc)
qed

text \<open>
  Claim C9. \<open>config.params\<close> refers to an array \<open>a\<close> that exists when \<open>fetch()\<close> is called.
  After any number of \<open>next()\<close> calls on the new generator, whatever the backend answers and
  whether or not the sequence has ended, the array at \<open>a\<close> holds the elements it held
  before: the cursor is written to the copy made on the first call.
\<close>

theorem fetch_keeps_config_params:
  assumes "params cfg = Some a" and "a < length st"
  shows "deref (heap (snd (pull n cfg lib (new_fetch st conn)))) a = deref st a"
proof -
  have "fetch_inv st (new_fetch st conn)"
    by (simp add: fetch_inv_def keeps_def new_fetch_def)
  then have "fetch_inv st (snd (pull n cfg lib (new_fetch st conn)))"
    by (rule pull_inv)
  then have k: "keeps st (snd (pull n cfg lib (new_fetch st conn)))"
    by (simp add: fetch_inv_def)
  let ?h = "heap (snd (pull n cfg lib (new_fetch st conn)))"
  from k have l: "length st \<le> length ?h" and t: "take (length st) ?h = st"
    by (simp_all add: keeps_def)
  from assms(2) have "take (length st) ?h ! a = ?h ! a" by simp
  with t l assms(2) show ?thesis by (simp add: deref_def)
qed

text \<open>In scenario C the copy ends as \<open>[3]\<close> while \<open>config.params\<close> is still \<open>[0]\<close>.\<close>

theorem fetch_keeps_config_params_witness:
  "params scenario_C_config = Some 0 \<and> 0 < length [[Num 0]] \<and>
   deref (heap (snd (pull 4 scenario_C_config (scripted_library scenario_C_pages)
                       (new_fetch [[Num 0]] None)))) 0 = [Num 0] \<and>
   heap (snd (pull 4 scenario_C_config (scripted_library scenario_C_pages)
                (new_fetch [[Num 0]] None))) = [[Num 0], [Num 3]]"
proof -
  have p: "params scenario_C_config = Some 0" by (simp add: scenario_C_config_def)
  have l: "0 < length [[Num 0]]" by simp
  from fetch_keeps_config_params [OF p l, of 4 "scripted_library scenario_C_pages" None] p
  show ?thesis by (simp add: scenario_C_pull deref_def)
qed

section \<open>Properties of the transactional writers\<close>

lemma sends_only_refl: "sends_only P d d"
  by (simp add: sends_only_def)

lemma sends_only_trans:
  "sends_only P d d1 \<Longrightarrow> sends_only P d1 d2 \<Longrightarrow> sends_only P d d2"
  by (auto simp: sends_only_def)

lemma sends_only_mono:
  "sends_only P d d' \<Longrightarrow> (\<And>s. P s \<Longrightarrow> Q s) \<Longrightarrow> sends_only Q d d'"
  by (auto simp: sends_only_def list_all_iff)

lemma sends_only_field [simp]:
  "sends_only P d (d'\<lparr>currentTransaction := b\<rparr>) = sends_only P d d'"
  by (simp add: sends_only_def)

lemma sends_only_sent_since:
  "sends_only P d d' \<Longrightarrow> s \<in> set (sent_since d d') \<Longrightarrow> P s"
  by (auto simp: sends_only_def sent_since_def list_all_iff)

lemma run_statement_sends: "P stmt \<Longrightarrow> sends_only P d (snd (run_statement sdk stmt d))"
  by (auto simp: run_statement_def sends_only_def split: option.splits prod.splits)

lemma run_statement_opt_sends: "P stmt \<Longrightarrow> sends_only P d (snd (run_statement_opt sdk stmt d))"
  by (simp add: run_statement_opt_def run_statement_sends sends_only_refl)

lemma flush_attempt_sends:
  assumes "P StartTransaction" "P (InsertValues rows)" "P Commit"
  shows "sends_only P d (snd (flush_attempt cfg sdk rows d))"
proof -
  obtain r1 d1 where s1: "run_statement sdk StartTransaction d = (r1, d1)"
    by (cases "run_statement sdk StartTransaction d")
  have a: "sends_only P d d1"
    using run_statement_sends [of P StartTransaction d sdk] assms(1) s1 by simp
  have b: "sends_only P x (snd (run_statement sdk (InsertValues rows) x))" for x
    using assms(2) by (rule run_statement_sends)
  have c: "sends_only P x (snd (run_statement sdk Commit x))" for x
    using assms(3) by (rule run_statement_sends)
  have step2: "sends_only P x
     (snd (case run_statement sdk (InsertValues rows) x of
             (Some e, d2) \<Rightarrow> (Some e, d2)
           | (None, d2) \<Rightarrow>
               if transaction_enabled cfg = Some True
               then (case run_statement sdk Commit d2 of
                       (Some e, d3) \<Rightarrow> (Some e, d3)
                     | (None, d3) \<Rightarrow> (None, d3\<lparr>currentTransaction := False\<rparr>))
               else (None, d2)))" for x
    using b [of x] c [of "snd (run_statement sdk (InsertValues rows) x)"]
    by (auto split: prod.splits option.splits intro: sends_only_trans)
  show ?thesis
    unfolding flush_attempt_def
    using a s1 step2 [of d] step2 [of "d1\<lparr>currentTransaction := True\<rparr>"]
    by (auto split: prod.splits option.splits simp: sends_only_def)
qed

lemma flush_rollback_sends: "P Rollback \<Longrightarrow> sends_only P d (flush_rollback sdk d)"
  using run_statement_sends [of P Rollback d sdk]
  by (auto simp: flush_rollback_def sends_only_refl split: prod.splits)

lemma flush_retry_sends:
  "sends_only (\<lambda>s. \<forall>g. s = InsertValues g \<longrightarrow> g = rows) d
     (snd (flush_retry cfg sdk rows attempt d))"
proof (induction cfg sdk rows attempt d rule: flush_retry.induct)
  case (1 cfg sdk rows attempt d)
  let ?P = "\<lambda>s. \<forall>g. s = InsertValues g \<longrightarrow> g = rows"
  obtain r d' where a: "flush_attempt cfg sdk rows d = (r, d')"
    by (cases "flush_attempt cfg sdk rows d")
  have s1: "sends_only ?P d d'"
    using flush_attempt_sends [of ?P rows d cfg sdk] a by simp
  have s2: "sends_only ?P d' (flush_rollback sdk d')"
    by (rule flush_rollback_sends) simp
  have s3: "sends_only ?P d (flush_rollback sdk d')"
    using s1 s2 by (rule sends_only_trans)
  show ?case
  proof (cases "attempt < js_or (transaction_maxRetries cfg) 3")
    case False
    then show ?thesis by (simp add: flush_retry.simps [of cfg sdk rows attempt d] sends_only_refl)
  next
    case True
    show ?thesis
    proof (cases r)
      case None
      with True a s1 show ?thesis by (simp add: flush_retry.simps [of cfg sdk rows attempt d])
    next
      case (Some e)
      show ?thesis
      proof (cases "js_or (transaction_maxRetries cfg) 3 \<le> attempt + 1")
        case last: True
        with True a Some s3 show ?thesis
          by (simp add: flush_retry.simps [of cfg sdk rows attempt d])
      next
        case more: False
        have "sends_only ?P (flush_rollback sdk d')
                (snd (flush_retry cfg sdk rows (attempt + 1) (flush_rollback sdk d')))"
          using "1.IH" [OF True a [symmetric] _ more] Some by simp
        with s3 have "sends_only ?P d
                (snd (flush_retry cfg sdk rows (attempt + 1) (flush_rollback sdk d')))"
          by (rule sends_only_trans)
        with True a Some more show ?thesis
          by (simp add: flush_retry.simps [of cfg sdk rows attempt d])
      qed
    qed
  qed
qed

lemma flushBatch_sends:
  "sends_only (\<lambda>s. \<forall>g. s = InsertValues g \<longrightarrow> g = pendingRows d) (d\<lparr>pendingRows := []\<rparr>)
     (snd (flushBatch cfg sdk d)) \<or> snd (flushBatch cfg sdk d) = d"
  using flush_retry_sends [of "pendingRows d" "d\<lparr>pendingRows := []\<rparr>" cfg sdk 0]
  by (simp add: flushBatch_def)

lemma flushBatch_fails:
  assumes "flushBatch cfg sdk d = (Some e, d')"
  shows "db_connection d \<noteq> None \<and> pendingRows d \<noteq> [] \<and>
         flushBatch cfg sdk d = flush_retry cfg sdk (pendingRows d) 0 (d\<lparr>pendingRows := []\<rparr>) \<and>
         pendingRows d' = []"
proof -
  from assms have g: "db_connection d \<noteq> None \<and> pendingRows d \<noteq> []"
    by (auto simp: flushBatch_def split: if_splits)
  then have f: "flushBatch cfg sdk d = flush_retry cfg sdk (pendingRows d) 0 (d\<lparr>pendingRows := []\<rparr>)"
    by (auto simp: flushBatch_def)
  from f assms have "snd (flush_retry cfg sdk (pendingRows d) 0 (d\<lparr>pendingRows := []\<rparr>)) = d'"
    by (metis snd_conv)
  with flush_retry_sends [of "pendingRows d" "d\<lparr>pendingRows := []\<rparr>" cfg sdk 0]
  have "pendingRows d' = []" by (simp add: sends_only_def)
  with g f show ?thesis by simp
qed

lemma db_connect_keeps:
  "pendingRows (snd (db_connect sdk d)) = pendingRows d \<and> sent (snd (db_connect sdk d)) = sent d"
  by (simp add: db_connect_def split: sum.splits prod.splits)

lemma close_finally_keeps:
  "sent (snd (close_finally sdk d)) = sent d"
  by (simp add: close_finally_def split: option.splits prod.splits)

lemma close_empty_buffer_sends:
  assumes "pendingRows d = []"
  shows "sends_only (\<lambda>s. s = Commit \<or> s = Rollback) d (snd (close_try cfg sdk d))"
proof -
  have c: "sends_only (\<lambda>s. s = Commit \<or> s = Rollback) d (snd (run_statement_opt sdk Commit d))"
    by (rule run_statement_opt_sends) simp
  have r: "sends_only (\<lambda>s. s = Commit \<or> s = Rollback) x (snd (run_statement_opt sdk Rollback x))" for x
    by (rule run_statement_opt_sends) simp
  show ?thesis
    using assms c r [of "snd (run_statement_opt sdk Commit d)"]
    by (auto simp: close_try_def sends_only_refl split: prod.splits option.splits
             intro: sends_only_trans)
qed

lemma db_close_empty_buffer:
  assumes "pendingRows d = []"
  shows "InsertValues g \<notin> set (sent_since d (snd (db_close cfg sdk d)))"
proof -
  have "sent (snd (db_close cfg sdk d)) =
        sent (snd (close_finally sdk (snd (close_try cfg sdk d))))"
    by (auto simp: db_close_def split: prod.splits option.splits)
  then have "sent (snd (db_close cfg sdk d)) = sent (snd (close_try cfg sdk d))"
    by (simp only: close_finally_keeps)
  then have "sent_since d (snd (db_close cfg sdk d)) = sent_since d (snd (close_try cfg sdk d))"
    by (simp add: sent_since_def)
  with sends_only_sent_since [OF close_empty_buffer_sends [OF assms, of cfg sdk], of "InsertValues g"]
  show ?thesis by auto
qed

lemma db_insert_sends:
  assumes "InsertValues g \<in> set (sent_since d (snd (db_insert cfg sdk rows d)))"
  shows "g = pendingRows d @ rows \<and> js_or (batchSize cfg) 1000 \<le> length g"
proof -
  obtain r1 d1 where c: "(if db_connection d = None then db_connect sdk d else (None, d)) = (r1, d1)"
    by (cases "if db_connection d = None then db_connect sdk d else (None, d)")
  have k: "pendingRows d1 = pendingRows d \<and> sent d1 = sent d"
    using c db_connect_keeps [of sdk d] by (auto split: if_splits)
  let ?d2 = "d1\<lparr>pendingRows := pendingRows d1 @ rows\<rparr>"
  show ?thesis
  proof (cases "r1 = None \<and> js_or (batchSize cfg) 1000 \<le> length (pendingRows ?d2)")
    case False
    then have "sent (snd (db_insert cfg sdk rows d)) = sent d"
      using c k by (auto simp: db_insert_def Let_def split: option.splits)
    with assms show ?thesis by (simp add: sent_since_def)
  next
    case True
    then have i: "snd (db_insert cfg sdk rows d) = snd (flushBatch cfg sdk ?d2)"
      using c by (simp add: db_insert_def Let_def)
    from flushBatch_sends [of ?d2 cfg sdk] show ?thesis
    proof
      assume "snd (flushBatch cfg sdk ?d2) = ?d2"
      with i k assms show ?thesis by (simp add: sent_since_def)
    next
      assume s: "sends_only (\<lambda>s. \<forall>g. s = InsertValues g \<longrightarrow> g = pendingRows ?d2)
                   (?d2\<lparr>pendingRows := []\<rparr>) (snd (flushBatch cfg sdk ?d2))"
      have "sent_since d (snd (db_insert cfg sdk rows d)) =
            sent_since (?d2\<lparr>pendingRows := []\<rparr>) (snd (flushBatch cfg sdk ?d2))"
        using i k by (simp add: sent_since_def)
      with sends_only_sent_since [OF s, of "InsertValues g"] assms
      have "g = pendingRows ?d2" by simp
      with True k show ?thesis by simp
    qed
  qed
qed

text \<open>
  Claim C10. \<open>flushBatch()\<close> takes the rows out of \<open>pendingRows\<close> before its retry loop
  starts. So when a flush has thrown, the buffer of the driver is empty: a following
  \<open>close()\<close> sends no \<open>INSERT\<close> at all, and a following \<open>insert(rows)\<close> sends no \<open>INSERT\<close>
  other than one for its own \<open>rows\<close>. The rows of the failed flush are not written again.
\<close>

theorem failed_flush_drops_rows:
  assumes "flushBatch cfg sdk d = (Some e, d')"
  shows "flushBatch cfg sdk d = flush_retry cfg sdk (pendingRows d) 0 (d\<lparr>pendingRows := []\<rparr>) \<and>
         pendingRows d' = [] \<and>
         (\<forall>g. InsertValues g \<notin> set (sent_since d' (snd (db_close cfg sdk d')))) \<and>
         (\<forall>rows g. InsertValues g \<in> set (sent_since d' (snd (db_insert cfg sdk rows d'))) \<longrightarrow>
                    g = rows)"
proof -
  from flushBatch_fails [OF assms] have
    f: "flushBatch cfg sdk d = flush_retry cfg sdk (pendingRows d) 0 (d\<lparr>pendingRows := []\<rparr>)"
    and p: "pendingRows d' = []" by simp_all
  from db_close_empty_buffer [OF p, of _ cfg sdk]
  have c: "\<forall>g. InsertValues g \<notin> set (sent_since d' (snd (db_close cfg sdk d')))" by blast
  from db_insert_sends [of _ d' cfg sdk] p
  have i: "\<forall>rows g. InsertValues g \<in> set (sent_since d' (snd (db_insert cfg sdk rows d'))) \<longrightarrow>
                    g = rows" by auto
  from f p c i show ?thesis by blast
qed

lemmas databricks_defs = databricks_config_def constructor_defaults_def js_or_def nullish_def
  new_DatabricksDestinationDriver_def db_insert_def db_connect_def flushBatch_def
  flush_retry.simps flush_attempt_def flush_rollback_def run_statement_def
  run_statement_opt_def db_close_def close_try_def close_finally_def
  insert_always_fails_def always_succeeds_def sent_since_def

lemma failing_flush_run:
  "flushBatch (databricks_config 1 1) insert_always_fails
     \<lparr>client = True, db_connection = Some (), pendingRows = [[(''id'', Num 1)]],
      currentTransaction = False, sent = []\<rparr> =
   (Some ''write failed'',
    \<lparr>client = True, db_connection = Some (), pendingRows = [],
     currentTransaction = False,
     sent = [StartTransaction, InsertValues [[(''id'', Num 1)]], Rollback]\<rparr>)"
  by (simp add: databricks_defs)

text \<open>One row whose write always fails, \<open>maxRetries = 1\<close>: the row is gone after the throw.\<close>

theorem failed_flush_drops_rows_witness:
  "flushBatch (databricks_config 1 1) insert_always_fails
     \<lparr>client = True, db_connection = Some (), pendingRows = [[(''id'', Num 1)]],
      currentTransaction = False, sent = []\<rparr> =
   (Some ''write failed'',
    \<lparr>client = True, db_connection = Some (), pendingRows = [],
     currentTransaction = False,
     sent = [StartTransaction, InsertValues [[(''id'', Num 1)]], Rollback]\<rparr>) \<and>
   InsertValues [[(''id'', Num 1)]] \<notin>
     set (sent_since
       \<lparr>client = True, db_connection = Some (), pendingRows = [],
        currentTransaction = False,
        sent = [StartTransaction, InsertValues [[(''id'', Num 1)]], Rollback]\<rparr>
       (snd (db_close (databricks_config 1 1) insert_always_fails
         \<lparr>client = True, db_connection = Some (), pendingRows = [],
          currentTransaction = False,
          sent = [StartTransaction, InsertValues [[(''id'', Num 1)]], Rollback]\<rparr>))) \<and>
   sent_since
       \<lparr>client = True, db_connection = Some (), pendingRows = [],
        currentTransaction = False,
        sent = [StartTransaction, InsertValues [[(''id'', Num 1)]], Rollback]\<rparr>
       (snd (db_insert (databricks_config 1 1) insert_always_fails [[(''id'', Num 2)]]
         \<lparr>client = True, db_connection = Some (), pendingRows = [],
          currentTransaction = False,
          sent = [StartTransaction, InsertValues [[(''id'', Num 1)]], Rollback]\<rparr>)) =
     [StartTransaction, InsertValues [[(''id'', Num 2)]], Rollback]"
proof -
  have i: "sent_since
       \<lparr>client = True, db_connection = Some (), pendingRows = [],
        currentTransaction = False,
        sent = [StartTransaction, InsertValues [[(''id'', Num 1)]], Rollback]\<rparr>
       (snd (db_insert (databricks_config 1 1) insert_always_fails [[(''id'', Num 2)]]
         \<lparr>client = True, db_connection = Some (), pendingRows = [],
          currentTransaction = False,
          sent = [StartTransaction, InsertValues [[(''id'', Num 1)]], Rollback]\<rparr>)) =
     [StartTransaction, InsertValues [[(''id'', Num 2)]], Rollback]"
    by (simp add: databricks_defs)
  from failed_flush_drops_rows [OF failing_flush_run] failing_flush_run i
  show ?thesis by blast
qed

text \<open>
  How often the two writers try a flush unit whose \<open>INSERT\<close> always fails, transactions
  enabled. The Databricks loop makes \<open>maxRetries || 3\<close> attempts in all, counted from
  \<open>attempt = 0\<close>; each is \<open>START TRANSACTION\<close>, the \<open>INSERT\<close> and \<open>ROLLBACK\<close>.
\<close>

lemma failing_attempt:
  assumes en: "transaction_enabled cfg = Some True"
    and st: "\<forall>c. fst (db_execute sdk c StartTransaction) = None"
    and ins: "\<forall>c. fst (db_execute sdk c (InsertValues rows)) = Some e"
    and conn: "db_connection d \<noteq> None" and tx: "\<not> currentTransaction d"
  shows "fst (flush_attempt cfg sdk rows d) = Some e \<and>
         sent (flush_rollback sdk (snd (flush_attempt cfg sdk rows d))) =
           sent d @ [StartTransaction, InsertValues rows, Rollback] \<and>
         db_connection (flush_rollback sdk (snd (flush_attempt cfg sdk rows d))) \<noteq> None \<and>
         \<not> currentTransaction (flush_rollback sdk (snd (flush_attempt cfg sdk rows d)))"
proof -
  from conn obtain c where c: "db_connection d = Some c" by auto
  obtain c1 where s1: "db_execute sdk c StartTransaction = (None, c1)"
    using st by (metis fst_conv surj_pair)
  obtain c2 where s2: "db_execute sdk c1 (InsertValues rows) = (Some e, c2)"
    using ins by (metis fst_conv surj_pair)
  obtain r3 c3 where s3: "db_execute sdk c2 Rollback = (r3, c3)"
    by (cases "db_execute sdk c2 Rollback")
  show ?thesis
    using en tx c s1 s2 s3
    by (simp add: flush_attempt_def flush_rollback_def run_statement_def)
qed

lemma databricks_attempts:
  assumes en: "transaction_enabled cfg = Some True"
    and st: "\<forall>c. fst (db_execute sdk c StartTransaction) = None"
    and ins: "\<forall>c. fst (db_execute sdk c (InsertValues rows)) = Some e"
  shows "db_connection d \<noteq> None \<Longrightarrow> \<not> currentTransaction d \<Longrightarrow>
         attempt < js_or (transaction_maxRetries cfg) 3 \<Longrightarrow>
         fst (flush_retry cfg sdk rows attempt d) = Some e \<and>
         sent (snd (flush_retry cfg sdk rows attempt d)) =
           sent d @ concat (replicate (js_or (transaction_maxRetries cfg) 3 - attempt)
                              [StartTransaction, InsertValues rows, Rollback])"
proof (induction "js_or (transaction_maxRetries cfg) 3 - attempt" arbitrary: attempt d)
  case 0
  then show ?case by simp
next
  case (Suc k)
  let ?M = "js_or (transaction_maxRetries cfg) 3"
  let ?d' = "flush_rollback sdk (snd (flush_attempt cfg sdk rows d))"
  from failing_attempt [OF en st ins Suc.prems(1,2)] have
    f: "fst (flush_attempt cfg sdk rows d) = Some e"
    and s: "sent ?d' = sent d @ [StartTransaction, InsertValues rows, Rollback]"
    and c: "db_connection ?d' \<noteq> None" and t: "\<not> currentTransaction ?d'" by simp_all
  obtain d1 where a: "flush_attempt cfg sdk rows d = (Some e, d1)"
    using f by (cases "flush_attempt cfg sdk rows d") auto
  show ?case
  proof (cases "?M \<le> attempt + 1")
    case True
    with Suc.prems(3) have "?M - attempt = 1" by arith
    with True Suc.prems(3) a s show ?thesis
      by (simp add: flush_retry.simps [of cfg sdk rows attempt d])
  next
    case False
    then have lt: "attempt + 1 < ?M" by simp
    from Suc.hyps(2) have k: "k = ?M - (attempt + 1)" by arith
    from Suc.hyps(1) [OF k c t lt] a
    have r: "fst (flush_retry cfg sdk rows (attempt + 1) ?d') = Some e"
      and rs: "sent (snd (flush_retry cfg sdk rows (attempt + 1) ?d')) =
           sent ?d' @ concat (replicate (?M - (attempt + 1))
                                [StartTransaction, InsertValues rows, Rollback])"
      by simp_all
    from lt have m: "?M - attempt = Suc (?M - (attempt + 1))" by arith
    from False Suc.prems(3) a r rs s m show ?thesis
      by (simp add: flush_retry.simps [of cfg sdk rows attempt d])
  qed
qed

text \<open>
  The Snowflake closure makes \<open>maxRetries + 1\<close> attempts in all, counted from
  \<open>retryCount = 0\<close>: the first one and \<open>maxRetries\<close> retries.
\<close>

lemma executeQuery_ok:
  assumes "sf_connection d \<noteq> None" and "\<forall>c. fst (exec c stmt) = None"
  shows "fst (executeQuery exec stmt d) = None \<and>
         sf_connection (snd (executeQuery exec stmt d)) \<noteq> None \<and>
         sf_sent (snd (executeQuery exec stmt d)) = sf_sent d @ [stmt]"
proof -
  from assms(1) obtain c where c: "sf_connection d = Some c" by auto
  obtain c' where "exec c stmt = (None, c')"
    using assms(2) by (metis fst_conv surj_pair)
  with c show ?thesis by (simp add: executeQuery_def)
qed

lemma executeQuery_rejected:
  assumes "sf_connection d \<noteq> None" and "\<forall>c. fst (exec c stmt) = Some e"
  shows "fst (executeQuery exec stmt d) = Some (''Query execution failed: '' @ e) \<and>
         sf_connection (snd (executeQuery exec stmt d)) \<noteq> None \<and>
         sf_sent (snd (executeQuery exec stmt d)) = sf_sent d @ [stmt]"
proof -
  from assms(1) obtain c where c: "sf_connection d = Some c" by auto
  obtain c' where "exec c stmt = (Some e, c')"
    using assms(2) by (metis fst_conv surj_pair)
  with c show ?thesis by (simp add: executeQuery_def)
qed

lemma issue_all_rejected:
  assumes "\<forall>c r. fst (exec c (InsertRow r)) = Some e"
  shows "sf_connection d \<noteq> None \<Longrightarrow>
         fst (issue_all exec batch d) =
           replicate (length batch) (Some (''Query execution failed: '' @ e)) \<and>
         sf_connection (snd (issue_all exec batch d)) \<noteq> None \<and>
         sf_sent (snd (issue_all exec batch d)) = sf_sent d @ map InsertRow batch"
proof (induction batch arbitrary: d)
  case Nil
  then show ?case by simp
next
  case (Cons r rs)
  obtain out d1 where q: "executeQuery exec (InsertRow r) d = (out, d1)"
    by (cases "executeQuery exec (InsertRow r) d")
  obtain outs d2 where i: "issue_all exec rs d1 = (outs, d2)"
    by (cases "issue_all exec rs d1")
  from executeQuery_rejected [OF Cons.prems, of exec "InsertRow r" e] assms q
  have o: "out = Some (''Query execution failed: '' @ e)"
    and c1: "sf_connection d1 \<noteq> None" and s1: "sf_sent d1 = sf_sent d @ [InsertRow r]"
    by simp_all
  from Cons.IH [OF c1] i
  have "outs = replicate (length rs) (Some (''Query execution failed: '' @ e))"
    and "sf_connection d2 \<noteq> None" and "sf_sent d2 = sf_sent d1 @ map InsertRow rs"
    by simp_all
  with o s1 q i show ?case by simp
qed

lemma await_all_rejected:
  assumes "0 < maxParallel" and "0 < n"
  shows "await_all maxParallel (replicate n (Some e)) 0 = Some (Some e)"
proof -
  from assms obtain m where "take maxParallel (replicate n (Some e)) = Some e # replicate m (Some e)"
    by (cases maxParallel; cases n) auto
  with assms(2) show ?thesis
    by (simp add: await_all.simps [of maxParallel "replicate n (Some e)" 0] first_rejection_def)
qed

lemma write_batches_rejected:
  assumes "\<forall>c r. fst (exec c (InsertRow r)) = Some e"
    and "sf_connection d \<noteq> None" and "rows \<noteq> []" and "0 < n" and "0 < maxParallel"
  shows "\<exists>d'. write_batches exec n maxParallel rows 0 d =
                 Some (Some (''Query execution failed: '' @ e), d') \<and>
              sf_connection d' \<noteq> None \<and>
              sf_sent d' = sf_sent d @ map InsertRow (take n rows)"
proof -
  let ?batch = "take n rows"
  let ?d0 = "d\<lparr>sf_groups := sf_groups d @ [?batch]\<rparr>"
  obtain outs d1 where i: "issue_all exec ?batch ?d0 = (outs, d1)"
    by (cases "issue_all exec ?batch ?d0")
  have c0: "sf_connection ?d0 \<noteq> None" using assms(2) by simp
  from issue_all_rejected [OF assms(1) c0, of ?batch] i
  have o: "outs = replicate (length ?batch) (Some (''Query execution failed: '' @ e))"
    and c1: "sf_connection d1 \<noteq> None"
    and s1: "sf_sent d1 = sf_sent d @ map InsertRow ?batch" by simp_all
  from assms(3,4) have "0 < length ?batch" by (cases rows) auto
  from await_all_rejected [OF assms(5) this] o
  have "await_all maxParallel outs 0 = Some (Some (''Query execution failed: '' @ e))" by simp
  with assms(3) i c1 s1 show ?thesis
    by (simp add: write_batches.simps [of exec n maxParallel rows 0 d] Let_def)
qed

lemma insert_try_rejected:
  assumes en: "sf_enabled cfg"
    and ok: "\<forall>c s. (\<forall>r. s \<noteq> InsertRow r) \<longrightarrow> fst (exec c s) = None"
    and bad: "\<forall>c r. fst (exec c (InsertRow r)) = Some e"
    and conn: "sf_connection d \<noteq> None" and rows: "rows \<noteq> []"
    and n: "0 < nullish (batch_size cfg) 1000" and p: "0 < nullish (maxParallelStatements cfg) 1"
  shows "\<exists>d1 d2. insert_try cfg exec rows d = Some (Some (''Query execution failed: '' @ e), d1) \<and>
           executeQuery exec Rollback d1 = (None, d2) \<and>
           sf_connection d2 \<noteq> None \<and>
           sf_sent d2 = sf_sent d @ attempt_statements cfg rows"
proof -
  let ?err = "''Query execution failed: '' @ e"
  obtain d1 where b: "executeQuery exec Begin d = (None, d1)"
    and c1: "sf_connection d1 \<noteq> None" and s1: "sf_sent d1 = sf_sent d @ [Begin]"
    using executeQuery_ok [OF conn, of exec Begin] ok
    by (cases "executeQuery exec Begin d") auto
  let ?t = "js_or (queryTimeout cfg) 0"
  define d2 where
    "d2 = (if ?t \<noteq> 0 then snd (executeQuery exec (SetStatementTimeout ?t) d1) else d1)"
  have q: "fst (executeQuery exec (SetStatementTimeout ?t) d1) = None \<and>
           sf_connection (snd (executeQuery exec (SetStatementTimeout ?t) d1)) \<noteq> None \<and>
           sf_sent (snd (executeQuery exec (SetStatementTimeout ?t) d1)) =
             sf_sent d1 @ [SetStatementTimeout ?t]"
    using executeQuery_ok [OF c1, of exec "SetStatementTimeout ?t"] ok by simp
  have t: "(if ?t \<noteq> 0 then executeQuery exec (SetStatementTimeout ?t) d1
            else (None, d1)) = (None, d2)"
    using q by (simp add: d2_def prod_eq_iff)
  have c2: "sf_connection d2 \<noteq> None"
    using q c1 by (simp add: d2_def)
  have s2: "sf_sent d2 = sf_sent d1 @ (if ?t \<noteq> 0 then [SetStatementTimeout ?t] else [])"
    using q by (simp add: d2_def)
  from write_batches_rejected [OF bad c2 rows n p] obtain d3 where
    w: "write_batches exec (nullish (batch_size cfg) 1000)
          (nullish (maxParallelStatements cfg) 1) rows 0 d2 = Some (Some ?err, d3)"
    and c3: "sf_connection d3 \<noteq> None"
    and s3: "sf_sent d3 = sf_sent d2 @ map InsertRow (take (nullish (batch_size cfg) 1000) rows)"
    by blast
  obtain d4 where r: "executeQuery exec Rollback d3 = (None, d4)"
    and c4: "sf_connection d4 \<noteq> None" and s4: "sf_sent d4 = sf_sent d3 @ [Rollback]"
    using executeQuery_ok [OF c3, of exec Rollback] ok
    by (cases "executeQuery exec Rollback d3") auto
  have "insert_try cfg exec rows d = Some (Some ?err, d3)"
    using en b t w by (simp add: insert_try_def)
  moreover have "sf_sent d4 = sf_sent d @ attempt_statements cfg rows"
    using s1 s2 s3 s4 by (simp add: attempt_statements_def)
  ultimately show ?thesis using r c4 by blast
qed

lemma snowflake_attempts:
  assumes en: "sf_enabled cfg"
    and ok: "\<forall>c s. (\<forall>r. s \<noteq> InsertRow r) \<longrightarrow> fst (exec c s) = None"
    and bad: "\<forall>c r. fst (exec c (InsertRow r)) = Some e"
    and rows: "rows \<noteq> []"
    and n: "0 < nullish (batch_size cfg) 1000" and p: "0 < nullish (maxParallelStatements cfg) 1"
  shows "sf_connection d \<noteq> None \<Longrightarrow> retryCount \<le> nullish (batch_maxRetries cfg) 3 \<Longrightarrow>
         \<exists>d'. executeInsert cfg exec rows retryCount d =
                 Some (Some (''Query execution failed: '' @ e), d') \<and>
              sf_sent d' = sf_sent d @
                concat (replicate (Suc (nullish (batch_maxRetries cfg) 3) - retryCount)
                          (attempt_statements cfg rows))"
proof (induction "nullish (batch_maxRetries cfg) 3 - retryCount" arbitrary: retryCount d)
  case 0
  let ?M = "nullish (batch_maxRetries cfg) 3"
  from 0 have eq: "retryCount = ?M" by simp
  from insert_try_rejected [OF en ok bad "0.prems"(1) rows n p] obtain d1 d2 where
    t: "insert_try cfg exec rows d = Some (Some (''Query execution failed: '' @ e), d1)"
    and r: "executeQuery exec Rollback d1 = (None, d2)"
    and s: "sf_sent d2 = sf_sent d @ attempt_statements cfg rows" by blast
  from eq have one: "Suc ?M - retryCount = 1" and nlt: "\<not> retryCount < ?M" by simp_all
  from one nlt en t r s show ?case
    by (simp add: executeInsert.simps [of cfg exec rows retryCount d])
next
  case (Suc k)
  let ?M = "nullish (batch_maxRetries cfg) 3"
  from Suc.hyps(2) have lt: "retryCount < ?M" by arith
  from insert_try_rejected [OF en ok bad Suc.prems(1) rows n p] obtain d1 d2 where
    t: "insert_try cfg exec rows d = Some (Some (''Query execution failed: '' @ e), d1)"
    and r: "executeQuery exec Rollback d1 = (None, d2)"
    and c: "sf_connection d2 \<noteq> None"
    and s: "sf_sent d2 = sf_sent d @ attempt_statements cfg rows" by blast
  from Suc.hyps(2) have k: "k = ?M - (retryCount + 1)" by arith
  from lt have le: "retryCount + 1 \<le> ?M" by simp
  from Suc.hyps(1) [OF k c le] obtain d' where
    rec: "executeInsert cfg exec rows (retryCount + 1) d2 =
            Some (Some (''Query execution failed: '' @ e), d')"
    and rs: "sf_sent d' = sf_sent d2 @
               concat (replicate (Suc ?M - (retryCount + 1)) (attempt_statements cfg rows))"
    by blast
  from lt have m: "Suc ?M - retryCount = Suc (Suc ?M - (retryCount + 1))" by arith
  from lt en t r rec rs s m show ?case
    by (simp add: executeInsert.simps [of cfg exec rows retryCount d])
qed

text \<open>
  Claim C1, evaluated on the Databricks writer with transactions enabled and a backend on
  which the \<open>INSERT\<close> always fails. With \<open>maxRetries = 3\<close> the flush unit is attempted three
  times in all (two retries) before the error is thrown; with \<open>maxRetries = 1\<close> it is attempted
  once and never retried; with \<open>maxRetries = 0\<close> it is attempted three times. Each failed
  attempt is rolled back.
\<close>

theorem databricks_retries_one_short:
  "db_insert (databricks_config 1 3) insert_always_fails [[(''id'', Num 1)]]
     new_DatabricksDestinationDriver =
   (Some ''write failed'',
    \<lparr>client = True, db_connection = Some (), pendingRows = [],
     currentTransaction = False,
     sent = [StartTransaction, InsertValues [[(''id'', Num 1)]], Rollback,
             StartTransaction, InsertValues [[(''id'', Num 1)]], Rollback,
             StartTransaction, InsertValues [[(''id'', Num 1)]], Rollback]\<rparr>) \<and>
   db_insert (databricks_config 1 1) insert_always_fails [[(''id'', Num 1)]]
     new_DatabricksDestinationDriver =
   (Some ''write failed'',
    \<lparr>client = True, db_connection = Some (), pendingRows = [],
     currentTransaction = False,
     sent = [StartTransaction, InsertValues [[(''id'', Num 1)]], Rollback]\<rparr>) \<and>
   db_insert (databricks_config 1 0) insert_always_fails [[(''id'', Num 1)]]
     new_DatabricksDestinationDriver =
   (Some ''write failed'',
    \<lparr>client = True, db_connection = Some (), pendingRows = [],
     currentTransaction = False,
     sent = [StartTransaction, InsertValues [[(''id'', Num 1)]], Rollback,
             StartTransaction, InsertValues [[(''id'', Num 1)]], Rollback,
             StartTransaction, InsertValues [[(''id'', Num 1)]], Rollback]\<rparr>)"
  by (simp add: databricks_defs)

section \<open>Properties of the write groups\<close>

lemma inserted_rows_simps [simp]:
  "inserted_rows [] = []"
  "inserted_rows (xs @ ys) = inserted_rows xs @ inserted_rows ys"
  "inserted_rows (map InsertRow rs) = rs"
  "inserted_rows [Begin] = []"
  "inserted_rows [Commit] = []"
  "inserted_rows [Rollback] = []"
  "inserted_rows [SetStatementTimeout t] = []"
  by (simp_all add: inserted_rows_def) (induction rs, simp_all)

lemma groups_within_refl: "sf_connection d \<noteq> None \<Longrightarrow> groups_within n d d"
  by (simp add: groups_within_def)

lemma groups_within_trans:
  "groups_within n d d1 \<Longrightarrow> groups_within n d1 d2 \<Longrightarrow> groups_within n d d2"
  by (auto simp: groups_within_def)

lemma groups_within_connected: "groups_within n d d' \<Longrightarrow> sf_connection d' \<noteq> None"
  by (simp add: groups_within_def)

lemma groups_within_since:
  assumes "groups_within n d d'"
  shows "(\<forall>g \<in> set (groups_since d d'). length g \<le> n) \<and>
         inserted_rows (sf_sent_since d d') = concat (groups_since d d')"
  using assms by (auto simp: groups_within_def groups_since_def sf_sent_since_def list_all_iff)

lemma executeQuery_sends:
  assumes "sf_connection d \<noteq> None"
  shows "sf_connection (snd (executeQuery exec stmt d)) \<noteq> None \<and>
         sf_groups (snd (executeQuery exec stmt d)) = sf_groups d \<and>
         sf_sent (snd (executeQuery exec stmt d)) = sf_sent d @ [stmt]"
  using assms by (auto simp: executeQuery_def split: prod.splits)

lemma executeQuery_within:
  assumes "sf_connection d \<noteq> None" and "inserted_rows [stmt] = []"
  shows "groups_within n d (snd (executeQuery exec stmt d))"
  using executeQuery_sends [OF assms(1), of exec stmt] assms(2)
  by (simp add: groups_within_def)

lemma issue_all_sends:
  "sf_connection d \<noteq> None \<Longrightarrow>
   sf_connection (snd (issue_all exec batch d)) \<noteq> None \<and>
   sf_groups (snd (issue_all exec batch d)) = sf_groups d \<and>
   sf_sent (snd (issue_all exec batch d)) = sf_sent d @ map InsertRow batch"
proof (induction batch arbitrary: d)
  case Nil
  then show ?case by simp
next
  case (Cons r rs)
  obtain out d1 where q: "executeQuery exec (InsertRow r) d = (out, d1)"
    by (cases "executeQuery exec (InsertRow r) d")
  obtain outs d2 where i: "issue_all exec rs d1 = (outs, d2)"
    by (cases "issue_all exec rs d1")
  from executeQuery_sends [OF Cons.prems, of exec "InsertRow r"] q
  have c1: "sf_connection d1 \<noteq> None" and g1: "sf_groups d1 = sf_groups d"
    and s1: "sf_sent d1 = sf_sent d @ [InsertRow r]" by simp_all
  from Cons.IH [OF c1] i
  have "sf_connection d2 \<noteq> None" and "sf_groups d2 = sf_groups d1"
    and "sf_sent d2 = sf_sent d1 @ map InsertRow rs" by simp_all
  with g1 s1 q i show ?case by simp
qed

text \<open>With a positive parallel limit and a positive batch size the two loops return.\<close>

lemma await_all_returns:
  assumes "0 < maxParallel"
  shows "\<exists>r. await_all maxParallel outs j = Some r"
proof (induction "length outs - j" arbitrary: j rule: less_induct)
  case less
  show ?case
  proof (cases "j < length outs")
    case False
    then show ?thesis by (simp add: await_all.simps [of maxParallel outs j])
  next
    case True
    with assms have "length outs - (j + maxParallel) < length outs - j" by arith
    from less [OF this] obtain r where
      "await_all maxParallel outs (j + maxParallel) = Some r" by blast
    with True show ?thesis
      by (simp add: await_all.simps [of maxParallel outs j] split: option.splits)
  qed
qed

lemma write_batches_returns:
  assumes "0 < n" and "0 < maxParallel"
  shows "sf_connection d \<noteq> None \<Longrightarrow>
         \<exists>r d'. write_batches exec n maxParallel rows i d = Some (r, d') \<and>
                 groups_within n d d'"
proof (induction "length rows - i" arbitrary: i d rule: less_induct)
  case less
  show ?case
  proof (cases "i < length rows")
    case False
    with less.prems show ?thesis
      by (simp add: write_batches.simps [of exec n maxParallel rows i d] groups_within_refl)
  next
    case True
    let ?batch = "take n (drop i rows)"
    let ?d0 = "d\<lparr>sf_groups := sf_groups d @ [?batch]\<rparr>"
    obtain outs d1 where iss: "issue_all exec ?batch ?d0 = (outs, d1)"
      by (cases "issue_all exec ?batch ?d0")
    have c0: "sf_connection ?d0 \<noteq> None" using less.prems by simp
    from issue_all_sends [OF c0, of exec ?batch] iss
    have c1: "sf_connection d1 \<noteq> None"
      and g1: "sf_groups d1 = sf_groups d @ [?batch]"
      and s1: "sf_sent d1 = sf_sent d @ map InsertRow ?batch" by simp_all
    have w1: "groups_within n d d1"
      using c1 g1 s1 by (simp add: groups_within_def)
    from await_all_returns [OF assms(2)] obtain a where
      aw: "await_all maxParallel outs 0 = Some a" by blast
    show ?thesis
    proof (cases a)
      case (Some e)
      with True iss aw w1 show ?thesis
        by (simp add: write_batches.simps [of exec n maxParallel rows i d] Let_def)
    next
      case None
      from True assms(1) have "length rows - (i + n) < length rows - i" by arith
      from less.hyps [OF this c1] obtain r d' where
        rec: "write_batches exec n maxParallel rows (i + n) d1 = Some (r, d')"
        and w2: "groups_within n d1 d'" by blast
      from w1 w2 have "groups_within n d d'" by (rule groups_within_trans)
      with True iss aw None rec show ?thesis
        by (simp add: write_batches.simps [of exec n maxParallel rows i d] Let_def)
    qed
  qed
qed

lemma insert_try_returns:
  assumes "0 < nullish (batch_size cfg) 1000" and "0 < nullish (maxParallelStatements cfg) 1"
    and conn: "sf_connection d \<noteq> None"
  shows "\<exists>r d'. insert_try cfg exec rows d = Some (r, d') \<and>
                 groups_within (nullish (batch_size cfg) 1000) d d'"
proof -
  let ?n = "nullish (batch_size cfg) 1000"
  let ?t = "js_or (queryTimeout cfg) 0"
  obtain r1 d1 where b: "(if sf_enabled cfg then executeQuery exec Begin d else (None, d)) = (r1, d1)"
    by (cases "if sf_enabled cfg then executeQuery exec Begin d else (None, d)")
  have w1: "groups_within ?n d d1"
    using b executeQuery_within [OF conn, of Begin ?n exec] conn
    by (auto simp: groups_within_refl split: if_splits)
  have c1: "sf_connection d1 \<noteq> None" using w1 by (rule groups_within_connected)
  obtain r2 d2 where t: "(if ?t \<noteq> 0 then executeQuery exec (SetStatementTimeout ?t) d1
                          else (None, d1)) = (r2, d2)"
    by (cases "if ?t \<noteq> 0 then executeQuery exec (SetStatementTimeout ?t) d1 else (None, d1)")
  have w12: "groups_within ?n d1 d2"
    using t executeQuery_within [OF c1, of "SetStatementTimeout ?t" ?n exec] c1
    by (auto simp: groups_within_refl split: if_splits)
  from w1 w12 have w2: "groups_within ?n d d2" by (rule groups_within_trans)
  have c2: "sf_connection d2 \<noteq> None" using w2 by (rule groups_within_connected)
  from write_batches_returns [OF assms(1,2) c2, of exec rows 0] obtain r3 d3 where
    wb: "write_batches exec ?n (nullish (maxParallelStatements cfg) 1) rows 0 d2 = Some (r3, d3)"
    and w3': "groups_within ?n d2 d3" by blast
  from w2 w3' have w3: "groups_within ?n d d3" by (rule groups_within_trans)
  have c3: "sf_connection d3 \<noteq> None" using w3 by (rule groups_within_connected)
  obtain rc dc where c: "executeQuery exec Commit d3 = (rc, dc)"
    by (cases "executeQuery exec Commit d3")
  have "groups_within ?n d3 dc"
    using executeQuery_within [OF c3, of Commit ?n exec] c by simp
  with w3 have w4: "groups_within ?n d dc" by (rule groups_within_trans)
  show ?thesis
    using b t wb c w1 w2 w3 w4
    by (cases r1; cases r2; cases r3) (simp_all add: insert_try_def)
qed

lemma executeInsert_returns:
  assumes "0 < nullish (batch_size cfg) 1000" and "0 < nullish (maxParallelStatements cfg) 1"
    and "sf_connection d \<noteq> None"
  shows "\<exists>r d'. executeInsert cfg exec rows retryCount d = Some (r, d') \<and>
                 groups_within (nullish (batch_size cfg) 1000) d d'"
  using assms
proof (induction cfg exec rows retryCount d rule: executeInsert.induct)
  case (1 cfg exec rows retryCount d)
  let ?n = "nullish (batch_size cfg) 1000"
  from insert_try_returns [OF "1.prems", of exec rows] obtain r d1 where
    t: "insert_try cfg exec rows d = Some (r, d1)" and w1: "groups_within ?n d d1" by blast
  have c1: "sf_connection d1 \<noteq> None" using w1 by (rule groups_within_connected)
  show ?case
  proof (cases r)
    case None
    with t w1 show ?thesis
      by (simp add: executeInsert.simps [of cfg exec rows retryCount d])
  next
    case (Some e)
    obtain r2 d2 where rb:
      "(if sf_enabled cfg then executeQuery exec Rollback d1 else (None, d1)) = (r2, d2)"
      by (cases "if sf_enabled cfg then executeQuery exec Rollback d1 else (None, d1)")
    have "groups_within ?n d1 d2"
      using rb executeQuery_within [OF c1, of Rollback ?n exec] c1
      by (auto simp: groups_within_refl split: if_splits)
    with w1 have w2: "groups_within ?n d d2" by (rule groups_within_trans)
    have c2: "sf_connection d2 \<noteq> None" using w2 by (rule groups_within_connected)
    show ?thesis
    proof (cases "r2 = None \<and> retryCount < nullish (batch_maxRetries cfg) 3")
      case False
      with t Some rb w2 show ?thesis
        by (cases r2) (auto simp: executeInsert.simps [of cfg exec rows retryCount d])
    next
      case True
      from True have lt: "retryCount < nullish (batch_maxRetries cfg) 3" by simp
      have rb': "(None, d2) =
                 (if sf_enabled cfg then executeQuery exec Rollback d1 else (None, d1))"
        using rb True by simp
      from "1.IH" [OF t refl Some rb' refl lt "1.prems"(1,2) c2]
      obtain r3 d3 where
        rec: "executeInsert cfg exec rows (retryCount + 1) d2 = Some (r3, d3)"
        and w3: "groups_within ?n d2 d3" by auto
      from w2 w3 have "groups_within ?n d d3" by (rule groups_within_trans)
      with t Some rb True rec show ?thesis
        by (simp add: executeInsert.simps [of cfg exec rows retryCount d])
    qed
  qed
qed

text \<open>
  The sibling writer keeps the bound. With a positive batch size and a positive parallel
  limit the Snowflake \<open>insert()\<close> returns, every slice it issued holds at most batch-size
  rows, and the row statements it sent are exactly those slices, in order.
\<close>

lemma sf_insert_returns:
  assumes "0 < nullish (batch_size cfg) 1000" and "0 < nullish (maxParallelStatements cfg) 1"
  shows "\<exists>r d'. sf_insert cfg exec rows d = Some (r, d') \<and>
                 (\<forall>g \<in> set (groups_since d d'). length g \<le> nullish (batch_size cfg) 1000) \<and>
                 inserted_rows (sf_sent_since d d') = concat (groups_since d d')"
proof (cases "sf_connection d = None \<or> rows = []")
  case True
  then show ?thesis by (auto simp: sf_insert_def groups_since_def sf_sent_since_def)
next
  case False
  then have conn: "sf_connection d \<noteq> None" by simp
  from executeInsert_returns [OF assms conn, of exec rows 0] obtain r d' where
    e: "executeInsert cfg exec rows 0 d = Some (r, d')"
    and w: "groups_within (nullish (batch_size cfg) 1000) d d'" by blast
  from False e groups_within_since [OF w] show ?thesis
    by (cases r) (auto simp: sf_insert_def)
qed

lemmas snowflake_defs = sf_insert_def executeInsert.simps insert_try_def write_batches.simps
  await_all.simps executeQuery_def nullish_def js_or_def first_rejection_def
  snowflake_config_def row_insert_fails_def never_fails_def groups_since_def sf_sent_since_def

lemma snowflake_slices_run:
  "sf_insert (snowflake_config 2 3) never_fails
     [[(''id'', Num 1)], [(''id'', Num 2)], [(''id'', Num 3)], [(''id'', Num 4)], [(''id'', Num 5)]]
     \<lparr>sf_connection = Some (), sf_sent = [], sf_groups = []\<rparr> =
   Some (None,
     \<lparr>sf_connection = Some (),
      sf_sent = [Begin, InsertRow [(''id'', Num 1)], InsertRow [(''id'', Num 2)],
                 InsertRow [(''id'', Num 3)], InsertRow [(''id'', Num 4)],
                 InsertRow [(''id'', Num 5)], Commit],
      sf_groups = [[[(''id'', Num 1)], [(''id'', Num 2)]],
                   [[(''id'', Num 3)], [(''id'', Num 4)]],
                   [[(''id'', Num 5)]]]\<rparr>)"
  by (simp add: snowflake_defs)

text \<open>
  The Snowflake writer with \<open>maxRetries = 1\<close> on a connection whose row \<open>INSERT\<close> always
  fails: the unit is attempted twice, each attempt is rolled back, then the error is thrown.
\<close>

lemma snowflake_retries_run:
  "sf_insert (snowflake_config 1 1) row_insert_fails [[(''id'', Num 1)]]
     \<lparr>sf_connection = Some (), sf_sent = [], sf_groups = []\<rparr> =
   Some (Some ''Failed to insert data into Snowflake: Query execution failed: write failed'',
     \<lparr>sf_connection = Some (),
      sf_sent = [Begin, InsertRow [(''id'', Num 1)], Rollback,
                 Begin, InsertRow [(''id'', Num 1)], Rollback],
      sf_groups = [[[(''id'', Num 1)]], [[(''id'', Num 1)]]]\<rparr>)"
  by (simp add: snowflake_defs)

text \<open>
  Claim C8, evaluated on the Databricks writer with a batch size of 2 (the option
  documented as the maximum batch size for insert operations). \<open>insert()\<close> of three rows,
  or of one row and then two, sends a single \<open>INSERT\<close> that carries all three rows: the
  group written is larger than the configured batch size.
\<close>

theorem databricks_group_exceeds_batch_size:
  "db_insert (databricks_config 2 3) always_succeeds
     [[(''id'', Num 1)], [(''id'', Num 2)], [(''id'', Num 3)]] new_DatabricksDestinationDriver =
   (None,
    \<lparr>client = True, db_connection = Some (), pendingRows = [],
     currentTransaction = False,
     sent = [StartTransaction,
             InsertValues [[(''id'', Num 1)], [(''id'', Num 2)], [(''id'', Num 3)]],
             Commit]\<rparr>) \<and>
   db_insert (databricks_config 2 3) always_succeeds [[(''id'', Num 2)], [(''id'', Num 3)]]
     (snd (db_insert (databricks_config 2 3) always_succeeds [[(''id'', Num 1)]]
        new_DatabricksDestinationDriver)) =
   (None,
    \<lparr>client = True, db_connection = Some (), pendingRows = [],
     currentTransaction = False,
     sent = [StartTransaction,
             InsertValues [[(''id'', Num 1)], [(''id'', Num 2)], [(''id'', Num 3)]],
             Commit]\<rparr>) \<and>
   js_or (batchSize (databricks_config 2 3)) 1000 = 2 \<and>
   \<not> length [[(''id'', Num 1)], [(''id'', Num 2)], [(''id'', Num 3)]]
       \<le> js_or (batchSize (databricks_config 2 3)) 1000"
  by (simp add: databricks_defs)

end
